theory Spec2Isabelle
  imports Main "HOL-Library.AList"
begin

section \<open>Values, files and the environment\<close>

text \<open>
  The ingestion core of the pipeline: the folder watcher
  (\<^verbatim>\<open>utils/file_watcher/file_watcher.py\<close>), the Kafka consumer
  (\<^verbatim>\<open>utils/kafka/consumer.py\<close>) and the data source factory and manager
  (\<^verbatim>\<open>utils/data_sources/data_source_factory.py\<close>).

  Python objects become records, \<^verbatim>\<open>self\<close> is passed in and returned, and everything
  outside the process (the file system, the wall clock, the watchdog observer, the Kafka
  client) is one record \<open>world\<close> that is passed along with it. An exception is a value
  of type \<open>exn\<close>, returned as \<open>Inl\<close>.
\<close>

datatype exn =
    RuntimeError string
  | ValueError string
  | KeyError string
  | FileNotFoundError string
  | OSError string
  | JSONDecodeError string
  | KafkaError string
  | Exception string

text \<open>\<^verbatim>\<open>str(e)\<close>: the message of an exception.\<close>

fun str :: "exn \<Rightarrow> string" where
  "str (RuntimeError m) = m"
| "str (ValueError m) = m"
| "str (KeyError m) = m"
| "str (FileNotFoundError m) = m"
| "str (OSError m) = m"
| "str (JSONDecodeError m) = m"
| "str (KafkaError m) = m"
| "str (Exception m) = m"

datatype json =
    JNull
  | JBool bool
  | JNum int
  | JStr string
  | JArr "json list"
  | JObj "(string \<times> json) list"

text \<open>
  A file is represented by what \<^verbatim>\<open>open\<close> followed by \<^verbatim>\<open>json.load\<close> does on it:
  reading raises some exception other than a decode error (\<open>Unreadable\<close>, with the
  exception's text), the decoder raises \<^verbatim>\<open>JSONDecodeError\<close> (\<open>Malformed\<close>, with the
  raw text and the decoder's message), or a value is returned (\<open>Parsed\<close>).
\<close>

datatype file_data =
    Unreadable string
  | Malformed string string
  | Parsed json

record fentry =
  data :: file_data
  st_size :: nat
  st_mtime :: nat

text \<open>
  A \<^verbatim>\<open>Path\<close> is its parent directory and its final component, so that
  \<^verbatim>\<open>path.name\<close> is the second component and \<^verbatim>\<open>dir / name\<close> is the pair.
\<close>

type_synonym path = "string \<times> string"

text \<open>
  Calls into the watchdog and kafka libraries whose failure the source catches. Whether
  such a call raises is not decided by anything in the source, so it is an input: the
  call raises exactly when its tag is in \<open>faults\<close>.
\<close>

datatype lib_call = ObserverStart | ObserverStop | KafkaConnect | KafkaClose

text \<open>
  What happens outside the process while it sleeps: a file is written or removed, or the
  observer thread delivers a created/moved notification for a path.
\<close>

datatype env_event = Put path fentry | Remove path | Notify path

datatype kmsg = Payload json | Garbled string

record world =
  files :: "(path \<times> fentry) list"
  clock :: nat
  pending :: "env_event list list"
  faults :: "lib_call set"
  incoming :: "(nat \<times> kmsg) list"

text \<open>
  \<open>files\<close> lists the regular files in directory-listing order; \<open>clock\<close> is the time
  in milliseconds; \<open>pending\<close> holds, for each coming sleep, the events that happen during
  it; \<open>incoming\<close> is the topic: each message with the delay after which it is available.
\<close>

definition path_exists :: "world \<Rightarrow> path \<Rightarrow> bool" where
  "path_exists w p = (map_of (files w) p \<noteq> None)"

definition stat :: "world \<Rightarrow> path \<Rightarrow> exn + fentry" where
  "stat w p = (case map_of (files w) p of None \<Rightarrow> Inl (FileNotFoundError (snd p)) | Some f \<Rightarrow> Inr f)"

definition shutil_move :: "path \<Rightarrow> path \<Rightarrow> world \<Rightarrow> exn + world" where
  "shutil_move src dst w =
     (case map_of (files w) src of
        None \<Rightarrow> Inl (FileNotFoundError (snd src))
      | Some f \<Rightarrow> Inr (w\<lparr>files := AList.update dst f (AList.delete src (files w))\<rparr>))"

definition unlink :: "path \<Rightarrow> world \<Rightarrow> exn + world" where
  "unlink p w =
     (if path_exists w p then Inr (w\<lparr>files := AList.delete p (files w)\<rparr>)
      else Inl (FileNotFoundError (snd p)))"

text \<open>\<^verbatim>\<open>open(p)\<close> followed by \<^verbatim>\<open>json.load\<close>.\<close>

definition json_load :: "world \<Rightarrow> path \<Rightarrow> exn + json" where
  "json_load w p =
     (case map_of (files w) p of
        None \<Rightarrow> Inl (FileNotFoundError (snd p))
      | Some f \<Rightarrow>
          (case data f of
             Unreadable msg \<Rightarrow> Inl (OSError msg)
           | Malformed txt msg \<Rightarrow> Inl (JSONDecodeError msg)
           | Parsed d \<Rightarrow> Inr d))"

definition write_text :: "path \<Rightarrow> string \<Rightarrow> world \<Rightarrow> world" where
  "write_text p s w =
     w\<lparr>files := AList.update p
          \<lparr>data = Malformed s ''Expecting value: line 1 column 1 (char 0)'',
           st_size = length s, st_mtime = clock w\<rparr> (files w)\<rparr>"

subsection \<open>Wall clock and its formats\<close>

record datetime =
  year :: nat
  month :: nat
  day :: nat
  hour :: nat
  minute :: nat
  second :: nat
  microsecond :: nat

definition digit :: "nat \<Rightarrow> char" where
  "digit n = ''0123456789'' ! (n mod 10)"

definition pad2 :: "nat \<Rightarrow> string" where
  "pad2 n = [digit (n div 10), digit n]"

definition pad4 :: "nat \<Rightarrow> string" where
  "pad4 n = [digit (n div 1000), digit (n div 100), digit (n div 10), digit n]"

definition pad6 :: "nat \<Rightarrow> string" where
  "pad6 n = [digit (n div 100000), digit (n div 10000), digit (n div 1000),
             digit (n div 100), digit (n div 10), digit n]"

text \<open>
  \<^verbatim>\<open>datetime.fromtimestamp\<close> on a time in milliseconds (proleptic Gregorian calendar,
  UTC), and \<^verbatim>\<open>datetime.now()\<close>, which reads the clock.
\<close>

definition fromtimestamp :: "nat \<Rightarrow> datetime" where
  "fromtimestamp ms =
     (let secs = ms div 1000; days = secs div 86400; r = secs mod 86400;
          z = days + 719468; era = z div 146097; doe = z mod 146097;
          yoe = (doe - doe div 1460 + doe div 36524 - doe div 146096) div 365;
          doy = doe - (365 * yoe + yoe div 4 - yoe div 100);
          mp = (5 * doy + 2) div 153;
          d = doy - (153 * mp + 2) div 5 + 1;
          m = (if mp < 10 then mp + 3 else mp - 9);
          y = yoe + era * 400 + (if m \<le> 2 then 1 else 0)
      in \<lparr>year = y, month = m, day = d, hour = r div 3600, minute = (r mod 3600) div 60,
          second = r mod 60, microsecond = (ms mod 1000) * 1000\<rparr>)"

definition datetime_now :: "world \<Rightarrow> datetime" where
  "datetime_now w = fromtimestamp (clock w)"

text \<open>\<^verbatim>\<open>strftime('%Y%m%d_%H%M%S')\<close> and \<^verbatim>\<open>isoformat()\<close>.\<close>

definition strftime :: "datetime \<Rightarrow> string" where
  "strftime t = pad4 (year t) @ pad2 (month t) @ pad2 (day t) @ ''_'' @
                pad2 (hour t) @ pad2 (minute t) @ pad2 (second t)"

definition isoformat :: "datetime \<Rightarrow> string" where
  "isoformat t = pad4 (year t) @ ''-'' @ pad2 (month t) @ ''-'' @ pad2 (day t) @ ''T'' @
                 pad2 (hour t) @ '':'' @ pad2 (minute t) @ '':'' @ pad2 (second t) @
                 (if microsecond t = 0 then [] else ''.'' @ pad6 (microsecond t))"

subsection \<open>Path names\<close>

definition rfind :: "char \<Rightarrow> string \<Rightarrow> nat option" where
  "rfind c s =
     (if c \<in> set s then Some (length s - 1 - length (takeWhile (\<lambda>x. x \<noteq> c) (rev s)))
      else None)"

definition path_suffix :: "string \<Rightarrow> string" where
  "path_suffix name =
     (case rfind (CHR ''.'') name of
        None \<Rightarrow> []
      | Some i \<Rightarrow> if 0 < i \<and> i < length name - 1 then drop i name else [])"

text \<open>
  \<^verbatim>\<open>path.with_suffix(s)\<close> on the final component. The source calls it with the
  constant \<^verbatim>\<open>'.error.txt'\<close> on a name that starts with a timestamp, so the
  \<^verbatim>\<open>ValueError\<close> of an empty name or a malformed suffix cannot arise.
\<close>

definition with_suffix :: "path \<Rightarrow> string \<Rightarrow> path" where
  "with_suffix p s =
     (let name = snd p; old_suffix = path_suffix name
      in (fst p, take (length name - length old_suffix) name @ s))"

fun fnmatch :: "string \<Rightarrow> string \<Rightarrow> bool" where
  "fnmatch [] [] = True"
| "fnmatch (c # cs) [] = False"
| "fnmatch [] (p # ps) = (p = CHR ''*'' \<and> fnmatch [] ps)"
| "fnmatch (c # cs) (p # ps) =
     (if p = CHR ''*'' then fnmatch (c # cs) ps \<or> fnmatch cs (p # ps)
      else if p = CHR ''?'' then fnmatch cs ps
      else c = p \<and> fnmatch cs ps)"

text \<open>
  \<^verbatim>\<open>dir.glob(pattern)\<close>: the entries of the directory whose name matches the pattern
  (wildcards \<^verbatim>\<open>*\<close> and \<^verbatim>\<open>?\<close>), in listing order.
\<close>

definition glob :: "world \<Rightarrow> string \<Rightarrow> string \<Rightarrow> path list" where
  "glob w dir pat = [p \<leftarrow> map fst (files w). fst p = dir \<and> fnmatch (snd p) pat]"

definition endswith :: "string \<Rightarrow> string \<Rightarrow> bool" where
  "endswith s suf = (length suf \<le> length s \<and> drop (length s - length suf) s = suf)"

section \<open>The folder watcher\<close>

record FileWatcherConfig =
  input_dir :: string
  archive_dir :: string
  error_dir :: string
  file_pattern :: string
  process_existing :: bool
  batch_size :: int
  polling_interval :: int

text \<open>
  \<^verbatim>\<open>FinancialStatementFileWatcher\<close>. The observer is \<open>None\<close> before the first
  \<^verbatim>\<open>connect\<close>; afterwards it holds whether the observer thread is alive.
\<close>

record watcher =
  config :: FileWatcherConfig
  file_queue :: "path list"
  observer :: "bool option"
  is_connected :: bool

type_synonym state = "watcher \<times> world"

definition new_watcher :: "FileWatcherConfig \<Rightarrow> watcher" where
  "new_watcher cfg = \<lparr>config = cfg, file_queue = [], observer = None, is_connected = False\<rparr>"

definition add_file_to_queue :: "path \<Rightarrow> watcher \<Rightarrow> world \<Rightarrow> watcher" where
  "add_file_to_queue file_path fw w =
     (if path_exists w file_path \<and> file_path \<notin> set (file_queue fw)
      then fw\<lparr>file_queue := file_queue fw @ [file_path]\<rparr> else fw)"

text \<open>
  \<^verbatim>\<open>FinancialStatementFileHandler.on_created\<close> and \<^verbatim>\<open>on_moved\<close>: both enqueue the
  path of the event when it ends in \<^verbatim>\<open>.json\<close>.
\<close>

definition on_created :: "path \<Rightarrow> watcher \<Rightarrow> world \<Rightarrow> watcher" where
  "on_created p fw w = (if endswith (snd p) ''.json'' then add_file_to_queue p fw w else fw)"

text \<open>
  The observer is scheduled on the input directory, not recursively, and delivers events
  only while its thread is alive.
\<close>

fun apply_event :: "state \<Rightarrow> env_event \<Rightarrow> state" where
  "apply_event (fw, w) (Put p f) = (fw, w\<lparr>files := AList.update p f (files w)\<rparr>)"
| "apply_event (fw, w) (Remove p) = (fw, w\<lparr>files := AList.delete p (files w)\<rparr>)"
| "apply_event (fw, w) (Notify p) =
     (if observer fw = Some True \<and> fst p = input_dir (config fw)
      then (on_created p fw w, w) else (fw, w))"

text \<open>\<^verbatim>\<open>time.sleep\<close>, in milliseconds: the clock advances and the next events happen.\<close>

definition time_sleep :: "nat \<Rightarrow> state \<Rightarrow> state" where
  "time_sleep ms s =
     (let fw = fst s; w = (snd s)\<lparr>clock := clock (snd s) + ms\<rparr>
      in case pending w of
           [] \<Rightarrow> (fw, w)
         | evs # rest \<Rightarrow> foldl apply_event (fw, w\<lparr>pending := rest\<rparr>) evs)"

definition is_file_ready :: "path \<Rightarrow> state \<Rightarrow> bool \<times> state" where
  "is_file_ready file_path s =
     (case stat (snd s) file_path of
        Inl e \<Rightarrow> (False, s)
      | Inr f0 \<Rightarrow>
          (let initial_size = st_size f0; s1 = time_sleep 500 s
           in if \<not> path_exists (snd s1) file_path then (False, s1)
              else (case stat (snd s1) file_path of
                      Inl e \<Rightarrow> (False, s1)
                    | Inr f1 \<Rightarrow>
                        (let final_size = st_size f1
                         in (initial_size = final_size \<and> final_size > 0, s1)))))"

fun scan_loop :: "path list \<Rightarrow> state \<Rightarrow> state" where
  "scan_loop [] s = s"
| "scan_loop (file_path # rest) s =
     (case is_file_ready file_path s of
        (ready, fw, w) \<Rightarrow>
          scan_loop rest (if ready then (add_file_to_queue file_path fw w, w) else (fw, w)))"

text \<open>
  The sort key \<^verbatim>\<open>x.stat().st_mtime\<close> is read right after the listing, when every
  listed file is present.
\<close>

definition mtime_key :: "world \<Rightarrow> path \<Rightarrow> nat" where
  "mtime_key w p = (case stat w p of Inr f \<Rightarrow> st_mtime f | Inl e \<Rightarrow> 0)"

definition scan_existing_files :: "state \<Rightarrow> state" where
  "scan_existing_files s =
     (let json_files = glob (snd s) (input_dir (config (fst s))) ''*.json'';
          json_files = sort_key (mtime_key (snd s)) json_files
      in scan_loop json_files s)"

definition watcher_connect :: "state \<Rightarrow> bool \<times> state" where
  "watcher_connect s =
     (if is_connected (fst s) then (True, s)
      else
        (let s1 = (if process_existing (config (fst s)) then scan_existing_files s else s);
             fw = fst s1; w = snd s1
         in if ObserverStart \<in> faults w then (False, (fw\<lparr>observer := Some False\<rparr>, w))
            else (True, (fw\<lparr>observer := Some True, is_connected := True\<rparr>, w))))"

definition archive_file :: "path \<Rightarrow> watcher \<Rightarrow> world \<Rightarrow> world" where
  "archive_file file_path fw w =
     (let timestamp = strftime (datetime_now w);
          archive_name = timestamp @ ''_'' @ snd file_path;
          archive_path = (archive_dir (config fw), archive_name)
      in case shutil_move file_path archive_path w of
           Inr w' \<Rightarrow> w'
         | Inl e \<Rightarrow> (case unlink file_path w of Inr w' \<Rightarrow> w' | Inl e' \<Rightarrow> w))"

definition error_report :: "string \<Rightarrow> string \<Rightarrow> string \<Rightarrow> string" where
  "error_report name stamp error_message =
     ''Error processing file: '' @ name @ [CHR 0x0A] @
     ''Timestamp: '' @ stamp @ [CHR 0x0A] @
     ''Error: '' @ error_message @ [CHR 0x0A]"

definition move_file_to_error :: "path \<Rightarrow> string \<Rightarrow> watcher \<Rightarrow> world \<Rightarrow> world" where
  "move_file_to_error file_path error_message fw w =
     (let timestamp = strftime (datetime_now w);
          error_name = timestamp @ ''_'' @ snd file_path;
          error_path = (error_dir (config fw), error_name)
      in case shutil_move file_path error_path w of
           Inl e \<Rightarrow> w
         | Inr w1 \<Rightarrow>
             (let error_report_path = with_suffix error_path ''.error.txt''
              in write_text error_report_path
                   (error_report (snd file_path) (isoformat (datetime_now w1)) error_message)
                   w1))"

subsection \<open>The generator \<^verbatim>\<open>consume_messages\<close>\<close>

text \<open>
  \<^verbatim>\<open>consume_messages\<close> is a generator: its body runs only while its caller asks for
  the next item, and it is suspended at a \<^verbatim>\<open>yield\<close> in between. A suspended generator
  is the record \<open>gen\<close> of its local variables and the \<^verbatim>\<open>yield\<close> it stands at:
  inside the loop over a list (\<open>InList\<close>, with the elements still to come) or after a
  single object (\<open>AfterSingle\<close>). Running the body up to the next \<^verbatim>\<open>yield\<close> gives
  \<open>Yield\<close> with the item and the suspended generator, \<open>Return\<close> when the body ends,
  or \<open>Raise\<close>.

  A caller that leaves its \<^verbatim>\<open>for\<close> loop by \<^verbatim>\<open>break\<close> drops the suspended
  generator. Python then raises \<^verbatim>\<open>GeneratorExit\<close> at the \<^verbatim>\<open>yield\<close>; it is not an
  \<^verbatim>\<open>Exception\<close>, so no handler of the body catches it, and the body has no
  \<^verbatim>\<open>finally\<close>: nothing after the \<^verbatim>\<open>yield\<close> runs.
\<close>

datatype gen_pos = InList path "json list" | AfterSingle path

record gen =
  max_messages :: int
  message_count :: int
  processed_files :: "path list"
  pos :: gen_pos

datatype gen_result = Yield json gen state | Return state | Raise exn state

text \<open>
  The two handlers of the loop body, \<^verbatim>\<open>except json.JSONDecodeError\<close> and
  \<^verbatim>\<open>except Exception\<close>, differ in the message they pass to
  \<^verbatim>\<open>_move_file_to_error\<close> only.
\<close>

definition except_message :: "exn \<Rightarrow> string" where
  "except_message e =
     (case e of
        JSONDecodeError msg \<Rightarrow> ''JSON decode error: '' @ msg
      | _ \<Rightarrow> ''Processing error: '' @ str e)"

text \<open>\<^verbatim>\<open>isinstance(data, list)\<close>, with the elements when it holds.\<close>

definition as_list :: "json \<Rightarrow> json list option" where
  "as_list d = (case d of JArr items \<Rightarrow> Some items | _ \<Rightarrow> None)"

text \<open>
  The body from the head of the \<^verbatim>\<open>while\<close> loop (\<open>AtWhile\<close>) or from the head of
  the \<^verbatim>\<open>for item in data\<close> loop (\<open>AtFor\<close>) to the next \<^verbatim>\<open>yield\<close>. The
  \<^verbatim>\<open>while\<close> loop goes on when the count is below the limit and the queue is not
  empty, and pops the head of the queue; after the loop the processed files are archived.
\<close>

datatype ctrl = AtWhile | AtFor path "json list"

definition archive_processed :: "path list \<Rightarrow> watcher \<Rightarrow> world \<Rightarrow> world" where
  "archive_processed processed fw w =
     foldl (\<lambda>w' file_path. archive_file file_path fw w') w processed"

function run :: "ctrl \<Rightarrow> int \<Rightarrow> int \<Rightarrow> path list \<Rightarrow> watcher \<Rightarrow> world \<Rightarrow> gen_result" where
  "run AtWhile mx mc processed fw w =
     (case file_queue fw of
        [] \<Rightarrow> Return (fw, archive_processed processed fw w)
      | file_path # rest \<Rightarrow>
          if \<not> mc < mx then Return (fw, archive_processed processed fw w)
          else
            (let fw1 = fw\<lparr>file_queue := rest\<rparr>
             in if \<not> path_exists w file_path then run AtWhile mx mc processed fw1 w
                else
                  (case json_load w file_path of
                     Inl e \<Rightarrow>
                       run AtWhile mx mc processed fw1
                         (move_file_to_error file_path (except_message e) fw1 w)
                   | Inr d \<Rightarrow>
                       (case as_list d of
                          Some items \<Rightarrow> run (AtFor file_path items) mx mc processed fw1 w
                        | None \<Rightarrow>
                            Yield d \<lparr>max_messages = mx, message_count = mc,
                                     processed_files = processed,
                                     pos = AfterSingle file_path\<rparr> (fw1, w)))))"
| "run (AtFor file_path items) mx mc processed fw w =
     (case items of
        [] \<Rightarrow> run AtWhile mx mc (processed @ [file_path]) fw w
      | item # rest \<Rightarrow>
          if mc \<ge> mx then run AtWhile mx mc (processed @ [file_path]) fw w
          else Yield item \<lparr>max_messages = mx, message_count = mc,
                            processed_files = processed,
                            pos = InList file_path rest\<rparr> (fw, w))"
  by pat_completeness auto
termination
  by (relation "measure (\<lambda>(c, mx, mc, processed, fw, w).
        2 * length (file_queue fw) + (case c of AtWhile \<Rightarrow> 0 | AtFor p xs \<Rightarrow> 1))")
     auto

declare run.simps [simp del]

text \<open>The first \<^verbatim>\<open>next\<close>: the body from its start.\<close>

definition watcher_consume_messages :: "int \<Rightarrow> state \<Rightarrow> gen_result" where
  "watcher_consume_messages mx s =
     (if \<not> is_connected (fst s) then
        (case watcher_connect s of
           (ok, s1) \<Rightarrow>
             if \<not> ok then Raise (RuntimeError ''Failed to establish file watcher connection'') s1
             else run AtWhile mx 0 [] (fst s1) (snd s1))
      else run AtWhile mx 0 [] (fst s) (snd s))"

text \<open>
  A later \<^verbatim>\<open>next\<close>: the body goes on after the \<^verbatim>\<open>yield\<close> it stands at, on the
  watcher and the world as they are now.
\<close>

definition resume :: "gen \<Rightarrow> state \<Rightarrow> gen_result" where
  "resume g s =
     (case pos g of
        InList file_path rest \<Rightarrow>
          run (AtFor file_path rest) (max_messages g) (message_count g + 1)
            (processed_files g) (fst s) (snd s)
      | AfterSingle file_path \<Rightarrow>
          run AtWhile (max_messages g) (message_count g + 1)
            (processed_files g @ [file_path]) (fst s) (snd s))"

subsection \<open>\<^verbatim>\<open>consume_batch\<close>\<close>

text \<open>
  Between two items of the same file the queue stays as it is and the list of elements
  still to come gets shorter; otherwise a file has been popped since. This is what makes
  the loop over the generator end.
\<close>

fun pos_size :: "gen_pos \<Rightarrow> nat" where
  "pos_size (InList file_path rest) = Suc (length rest)"
| "pos_size (AfterSingle file_path) = 0"

fun result_size :: "gen_result \<Rightarrow> nat \<times> nat" where
  "result_size (Yield m g s) = (Suc (length (file_queue (fst s))), pos_size (pos g))"
| "result_size (Return s) = (0, 0)"
| "result_size (Raise e s) = (0, 0)"

lemma run_yield:
  "run c mx mc processed fw w = Yield m g s \<Longrightarrow>
     max_messages g = mx \<and> message_count g = mc \<and> mc < mx \<and>
     (case c of
        AtWhile \<Rightarrow> length (file_queue (fst s)) < length (file_queue fw)
      | AtFor file_path items \<Rightarrow>
          length (file_queue (fst s)) < length (file_queue fw) \<or>
          (length (file_queue (fst s)) = length (file_queue fw) \<and>
           pos_size (pos g) \<le> length items))"
proof (induction c mx mc processed fw w rule: run.induct)
  case (1 mx mc processed fw w)
  note unf = "1.prems" [unfolded run.simps(1) [of mx mc processed fw w]]
  from unf obtain file_path rest where q: "file_queue fw = file_path # rest" and lt: "mc < mx"
    by (auto split: list.splits if_splits)
  define fw1 where "fw1 = fw\<lparr>file_queue := rest\<rparr>"
  have len1: "length (file_queue fw1) < length (file_queue fw)"
    by (simp add: fw1_def q)
  have "max_messages g = mx \<and> message_count g = mc \<and> mc < mx \<and>
        length (file_queue (fst s)) \<le> length (file_queue fw1)"
  proof (cases "path_exists w file_path")
    case False
    with unf q lt have "run AtWhile mx mc processed fw1 w = Yield m g s"
      by (simp add: fw1_def Let_def)
    from "1.IH"(1) [OF q _ fw1_def False this] lt show ?thesis by simp
  next
    case True
    show ?thesis
    proof (cases "json_load w file_path")
      case (Inl e)
      with unf q lt True
      have "run AtWhile mx mc processed fw1
              (move_file_to_error file_path (except_message e) fw1 w) = Yield m g s"
        by (simp add: fw1_def Let_def)
      from "1.IH"(2) [OF q _ fw1_def _ Inl this] lt True show ?thesis by simp
    next
      case (Inr d)
      show ?thesis
      proof (cases "as_list d")
        case None
        with unf q lt True Inr show ?thesis by (auto simp: fw1_def Let_def)
      next
        case (Some items)
        with unf q lt True Inr
        have "run (AtFor file_path items) mx mc processed fw1 w = Yield m g s"
          by (simp add: fw1_def Let_def)
        from "1.IH"(3) [OF q _ fw1_def _ Inr Some this] lt True show ?thesis by auto
      qed
    qed
  qed
  with len1 show ?case by simp
next
  case (2 file_path items mx mc processed fw w)
  note unf = "2.prems" [unfolded run.simps(2) [of file_path items mx mc processed fw w]]
  show ?case
  proof (cases items)
    case Nil
    with unf "2.IH"(1) show ?thesis by simp
  next
    case (Cons item rest)
    show ?thesis
    proof (cases "mx \<le> mc")
      case True
      with unf Cons "2.IH"(2) show ?thesis by simp
    next
      case False
      with unf Cons show ?thesis by auto
    qed
  qed
qed

lemma resume_size:
  "resume g s = Yield m g' s' \<Longrightarrow>
     (result_size (Yield m g' s'), result_size (Yield m0 g s)) \<in> less_than <*lex*> less_than"
  using run_yield [of AtWhile "max_messages g" "message_count g + 1" _ "fst s" "snd s" m g' s']
        run_yield [of "AtFor _ _" "max_messages g" "message_count g + 1" _ "fst s" "snd s" m g' s']
  by (cases "pos g") (fastforce simp: resume_def)+

text \<open>
  The loop \<^verbatim>\<open>for message in <generator>: messages.append(message); if len(messages)
  >= batch_size: break\<close> of \<^verbatim>\<open>consume_batch\<close>, from the result of a \<^verbatim>\<open>next\<close> on.
  After the \<^verbatim>\<open>break\<close> the generator is dropped where it stands.
\<close>

function collect :: "int \<Rightarrow> json list \<Rightarrow> gen_result \<Rightarrow> exn \<times> state + json list \<times> state" where
  "collect bs messages (Return s) = Inr (messages, s)"
| "collect bs messages (Raise e s) = Inl (e, s)"
| "collect bs messages (Yield message g s) =
     (let messages' = messages @ [message]
      in if int (length messages') \<ge> bs then Inr (messages', s)
         else collect bs messages' (resume g s))"
  by pat_completeness auto
termination
proof (relation "inv_image (less_than <*lex*> less_than) (\<lambda>(bs, messages, r). result_size r)")
  show "wf (inv_image (less_than <*lex*> less_than)
              (\<lambda>(bs :: int, messages :: json list, r :: gen_result). result_size r))"
    by (intro wf_inv_image wf_lex_prod wf_less_than)
next
  fix bs :: int and messages :: "json list" and message g s messages'
  show "((bs, messages', resume g s), (bs, messages, Yield message g s))
          \<in> inv_image (less_than <*lex*> less_than) (\<lambda>(bs, messages, r). result_size r)"
  proof (cases "resume g s")
    case (Yield m' g' s')
    with resume_size [of g s m' g' s' message] show ?thesis by simp
  qed simp_all
qed

text \<open>
  \<^verbatim>\<open>time.sleep(seconds)\<close> on an integer number of seconds; a negative one raises
  \<^verbatim>\<open>ValueError\<close>.
\<close>

definition sleep_seconds :: "int \<Rightarrow> state \<Rightarrow> exn \<times> state + state" where
  "sleep_seconds secs s =
     (if secs < 0 then Inl (ValueError ''sleep length must be non-negative'', s)
      else Inr (time_sleep (nat secs * 1000) s))"

text \<open>
  The second loop of \<^verbatim>\<open>consume_batch\<close>. Only sleeping moves the clock, so with a
  polling interval of zero and an empty queue the loop of the model never ends: it is a
  partial function, and \<open>None\<close> stands for not returning.
\<close>

partial_function (option) wait_for_files ::
  "int \<Rightarrow> int \<Rightarrow> nat \<Rightarrow> json list \<Rightarrow> state \<Rightarrow> (exn \<times> state + json list \<times> state) option" where
  "wait_for_files bs timeout_ms start_time messages s =
     (if int (length messages) < bs \<and> int (clock (snd s)) - int start_time < timeout_ms then
        (if file_queue (fst s) = [] then
           (case sleep_seconds (polling_interval (config (fst s))) s of
              Inl err \<Rightarrow> Some (Inl err)
            | Inr s1 \<Rightarrow> wait_for_files bs timeout_ms start_time messages s1)
         else
           (case collect bs messages
                   (watcher_consume_messages (bs - int (length messages)) s) of
              Inl err \<Rightarrow> Some (Inl err)
            | Inr (messages1, s1) \<Rightarrow> wait_for_files bs timeout_ms start_time messages1 s1))
      else Some (Inr (messages, s)))"

declare wait_for_files.simps [code]

definition watcher_consume_batch ::
  "int \<Rightarrow> int \<Rightarrow> state \<Rightarrow> (exn \<times> state + json list \<times> state) option" where
  "watcher_consume_batch bs timeout_ms s =
     (let start_time = clock (snd s)
      in case collect bs [] (watcher_consume_messages bs s) of
           Inl err \<Rightarrow> Some (Inl err)
         | Inr (messages, s1) \<Rightarrow> wait_for_files bs timeout_ms start_time messages s1)"

subsection \<open>Statistics and \<^verbatim>\<open>close\<close>\<close>

definition get_queue_size :: "watcher \<Rightarrow> nat" where
  "get_queue_size fw = length (file_queue fw)"

record statistics =
  stat_is_connected :: bool
  queue_size :: nat
  input_files_pending :: nat
  archived_files :: nat
  error_files :: nat
  input_directory :: string
  archive_directory :: string
  error_directory :: string

definition get_statistics :: "watcher \<Rightarrow> world \<Rightarrow> statistics" where
  "get_statistics fw w =
     \<lparr>stat_is_connected = is_connected fw,
      queue_size = get_queue_size fw,
      input_files_pending = length (glob w (input_dir (config fw)) ''*.json''),
      archived_files = length (glob w (archive_dir (config fw)) ''*.json''),
      error_files = length (glob w (error_dir (config fw)) ''*.json''),
      input_directory = input_dir (config fw),
      archive_directory = archive_dir (config fw),
      error_directory = error_dir (config fw)\<rparr>"

text \<open>
  \<^verbatim>\<open>close\<close>: the body of the \<^verbatim>\<open>try\<close>, in which \<^verbatim>\<open>observer.stop()\<close> may raise,
  and the handler, which logs and leaves the watcher as it is.
\<close>

definition observer_stop :: "watcher \<Rightarrow> world \<Rightarrow> exn + watcher" where
  "observer_stop fw w =
     (if ObserverStop \<in> faults w then Inl (Exception ''observer.stop'')
      else Inr (fw\<lparr>observer := Some False\<rparr>))"

definition watcher_close :: "watcher \<Rightarrow> world \<Rightarrow> exn + watcher" where
  "watcher_close fw w =
     (case (if observer fw = Some True then observer_stop fw w else Inr fw) of
        Inr fw1 \<Rightarrow> Inr (fw1\<lparr>is_connected := False\<rparr>)
      | Inl e \<Rightarrow> Inr fw)"

section \<open>The Kafka consumer\<close>

text \<open>
  A configuration dictionary, with \<open>None\<close> for a key that is absent. The values are
  typed: a dictionary with a value of the wrong type is outside the model.
\<close>

record config_dict =
  d_input_dir :: "string option"
  d_archive_dir :: "string option"
  d_error_dir :: "string option"
  d_file_pattern :: "string option"
  d_process_existing :: "bool option"
  d_batch_size :: "int option"
  d_polling_interval :: "int option"
  d_bootstrap_servers :: "string option"
  d_topic :: "string option"
  d_group_id :: "string option"
  d_auto_offset_reset :: "string option"
  d_enable_auto_commit :: "bool option"
  d_consumer_timeout_ms :: "nat option"

definition empty_dict :: config_dict where
  "empty_dict =
     \<lparr>d_input_dir = None, d_archive_dir = None, d_error_dir = None, d_file_pattern = None,
      d_process_existing = None, d_batch_size = None, d_polling_interval = None,
      d_bootstrap_servers = None, d_topic = None, d_group_id = None,
      d_auto_offset_reset = None, d_enable_auto_commit = None,
      d_consumer_timeout_ms = None\<rparr>"

text \<open>
  \<^verbatim>\<open>KAFKA_CONFIG\<close> of \<^verbatim>\<open>config/airflow_config.py\<close>, with the values it has when
  the environment variables it reads are not set.
\<close>

definition KAFKA_CONFIG :: config_dict where
  "KAFKA_CONFIG =
     empty_dict\<lparr>d_bootstrap_servers := Some ''localhost:9092'',
                d_topic := Some ''financial-statements'',
                d_group_id := Some ''airflow-statement-processor'',
                d_auto_offset_reset := Some ''latest'',
                d_enable_auto_commit := Some True,
                d_consumer_timeout_ms := Some 10000\<rparr>"

text \<open>
  The \<^verbatim>\<open>KafkaConsumer\<close> of the kafka library, as far as the source uses it: an
  iterator that waits up to \<^verbatim>\<open>consumer_timeout_ms\<close> for the next message and stops
  when none comes in that time, whose deserializer (\<^verbatim>\<open>json.loads\<close>) raises on a
  payload that is not JSON, and which stops at once after \<^verbatim>\<open>close\<close>.
\<close>

record kafka_client =
  consumer_timeout_ms :: nat
  closed :: bool

definition client_next :: "kafka_client \<Rightarrow> world \<Rightarrow> exn \<times> world + json option \<times> world" where
  "client_next cl w =
     (if closed cl then Inr (None, w)
      else
        (case incoming w of
           [] \<Rightarrow> Inr (None, w\<lparr>clock := clock w + consumer_timeout_ms cl\<rparr>)
         | (delay, m) # rest \<Rightarrow>
             if consumer_timeout_ms cl < delay
             then Inr (None, w\<lparr>clock := clock w + consumer_timeout_ms cl,
                               incoming := (delay - consumer_timeout_ms cl, m) # rest\<rparr>)
             else
               (case m of
                  Garbled msg \<Rightarrow>
                    Inl (JSONDecodeError msg, w\<lparr>clock := clock w + delay, incoming := rest\<rparr>)
                | Payload v \<Rightarrow>
                    Inr (Some v, w\<lparr>clock := clock w + delay, incoming := rest\<rparr>))))"

text \<open>\<^verbatim>\<open>FinancialStatementConsumer\<close>.\<close>

record consumer =
  consumer_config :: config_dict
  client :: "kafka_client option"

definition new_consumer :: "config_dict \<Rightarrow> consumer" where
  "new_consumer cfg =
     \<lparr>consumer_config = (if cfg = empty_dict then KAFKA_CONFIG else cfg), client = None\<rparr>"

text \<open>
  \<^verbatim>\<open>connect\<close>: a missing key raises \<^verbatim>\<open>KeyError\<close>, which the handler for
  \<^verbatim>\<open>KafkaError\<close> does not catch; a \<^verbatim>\<open>KafkaError\<close> of the client's constructor
  gives \<^verbatim>\<open>False\<close>.
\<close>

definition consumer_connect :: "consumer \<Rightarrow> world \<Rightarrow> exn + bool \<times> consumer" where
  "consumer_connect c w =
     (let cfg = consumer_config c
      in if d_topic cfg = None then Inl (KeyError ''topic'')
         else if d_bootstrap_servers cfg = None then Inl (KeyError ''bootstrap_servers'')
         else if d_group_id cfg = None then Inl (KeyError ''group_id'')
         else if d_auto_offset_reset cfg = None then Inl (KeyError ''auto_offset_reset'')
         else if d_enable_auto_commit cfg = None then Inl (KeyError ''enable_auto_commit'')
         else
           (case d_consumer_timeout_ms cfg of
              None \<Rightarrow> Inl (KeyError ''consumer_timeout_ms'')
            | Some t \<Rightarrow>
                if KafkaConnect \<in> faults w then Inr (False, c)
                else Inr (True, c\<lparr>client := Some \<lparr>consumer_timeout_ms = t, closed = False\<rparr>\<rparr>)))"

text \<open>
  The loop \<^verbatim>\<open>for message in self.consumer\<close> of \<^verbatim>\<open>consume_messages\<close>, with the
  items it yields collected in \<open>acc\<close>: its only caller, \<^verbatim>\<open>consume_batch\<close>, iterates
  the generator to its end and appends every item. The validator
  (\<^verbatim>\<open>StatementValidator.validate_statement_message\<close>, which returns the validated
  message or \<^verbatim>\<open>None\<close> and never raises) is the parameter \<open>validate\<close>.
\<close>

function consumer_loop ::
  "(json \<Rightarrow> json option) \<Rightarrow> kafka_client \<Rightarrow> int \<Rightarrow> int \<Rightarrow> json list \<Rightarrow> world
     \<Rightarrow> exn \<times> world + json list \<times> world" where
  "consumer_loop validate cl mx mc acc w =
     (case client_next cl w of
        Inl err \<Rightarrow> Inl err
      | Inr (None, w1) \<Rightarrow> Inr (acc, w1)
      | Inr (Some v, w1) \<Rightarrow>
          if mc \<ge> mx then Inr (acc, w1)
          else
            (case validate v of
               Some validated_data \<Rightarrow> consumer_loop validate cl mx (mc + 1) (acc @ [validated_data]) w1
             | None \<Rightarrow> consumer_loop validate cl mx mc acc w1))"
  by pat_completeness auto
termination
  by (relation "measure (\<lambda>(validate, cl, mx, mc, acc, w). length (incoming w))")
     (auto simp: client_next_def split: if_splits list.splits kmsg.splits)

declare consumer_loop.simps [simp del]

definition consumer_consume_messages ::
  "(json \<Rightarrow> json option) \<Rightarrow> int \<Rightarrow> consumer \<Rightarrow> world
     \<Rightarrow> exn \<times> consumer \<times> world + json list \<times> consumer \<times> world" where
  "consumer_consume_messages validate mx c w =
     (case client c of
        Some cl \<Rightarrow>
          (case consumer_loop validate cl mx 0 [] w of
             Inl (e, w1) \<Rightarrow> Inl (e, c, w1)
           | Inr (ms, w1) \<Rightarrow> Inr (ms, c, w1))
      | None \<Rightarrow>
          (case consumer_connect c w of
             Inl e \<Rightarrow> Inl (e, c, w)
           | Inr (ok, c1) \<Rightarrow>
               if \<not> ok then Inl (RuntimeError ''Failed to establish Kafka connection'', c1, w)
               else
                 (case client c1 of
                    None \<Rightarrow> Inl (RuntimeError ''Failed to establish Kafka connection'', c1, w)
                  | Some cl \<Rightarrow>
                      (case consumer_loop validate cl mx 0 [] w of
                         Inl (e, w1) \<Rightarrow> Inl (e, c1, w1)
                       | Inr (ms, w1) \<Rightarrow> Inr (ms, c1, w1)))))"

text \<open>
  In \<open>consumer_consume_messages\<close> a successful \<^verbatim>\<open>connect\<close> has set the client, so the
  branch for a client that is still \<open>None\<close> after it is never taken.

  \<^verbatim>\<open>consume_batch\<close> does not read its \<^verbatim>\<open>timeout_ms\<close>.
\<close>

definition consumer_consume_batch ::
  "(json \<Rightarrow> json option) \<Rightarrow> int \<Rightarrow> int \<Rightarrow> consumer \<Rightarrow> world
     \<Rightarrow> exn \<times> consumer \<times> world + json list \<times> consumer \<times> world" where
  "consumer_consume_batch validate bs timeout_ms c w = consumer_consume_messages validate bs c w"

definition consumer_close :: "consumer \<Rightarrow> world \<Rightarrow> exn + consumer" where
  "consumer_close c w =
     (case client c of
        None \<Rightarrow> Inr c
      | Some cl \<Rightarrow>
          if KafkaClose \<in> faults w then Inl (Exception ''consumer.close'')
          else Inr (c\<lparr>client := Some (cl\<lparr>closed := True\<rparr>)\<rparr>))"

section \<open>Data sources, factory and manager\<close>

datatype DataSourceType = KAFKA | FILE_WATCHER

fun type_value :: "DataSourceType \<Rightarrow> string" where
  "type_value KAFKA = ''kafka''"
| "type_value FILE_WATCHER = ''file_watcher''"

text \<open>\<^verbatim>\<open>DataSourceType(value)\<close>: the member with that value, or \<^verbatim>\<open>ValueError\<close>.\<close>

definition DataSourceType_of :: "string \<Rightarrow> exn + DataSourceType" where
  "DataSourceType_of v =
     (if v = ''kafka'' then Inr KAFKA
      else if v = ''file_watcher'' then Inr FILE_WATCHER
      else Inl (ValueError (v @ '' is not a valid DataSourceType'')))"

text \<open>\<^verbatim>\<open>str.lower()\<close>, on ASCII letters.\<close>

definition lower :: "string \<Rightarrow> string" where
  "lower s =
     map (\<lambda>c. case map_of (zip ''ABCDEFGHIJKLMNOPQRSTUVWXYZ'' ''abcdefghijklmnopqrstuvwxyz'') c of
                 Some l \<Rightarrow> l
               | None \<Rightarrow> c) s"

text \<open>\<^verbatim>\<open>dict.get(key, default)\<close> on a typed dictionary.\<close>

definition get :: "'a option \<Rightarrow> 'a \<Rightarrow> 'a" where
  "get v dflt = (case v of Some x \<Rightarrow> x | None \<Rightarrow> dflt)"

record KafkaDataSource =
  k_config :: config_dict
  k_is_connected :: bool
  k_consumer :: consumer

record FileWatcherDataSource =
  f_config :: config_dict
  f_is_connected :: bool
  f_watcher :: watcher

datatype data_source = Kafka KafkaDataSource | FileWatcher FileWatcherDataSource

datatype source_status =
    KafkaStatus bool string "string option" string string
  | FileWatcherStatus bool string statistics

text \<open>The entry \<^verbatim>\<open>'is_connected'\<close> of a status.\<close>

fun status_is_connected :: "source_status \<Rightarrow> bool" where
  "status_is_connected (KafkaStatus c t servers topic group_id) = c"
| "status_is_connected (FileWatcherStatus c t st) = c"

subsection \<open>\<^verbatim>\<open>KafkaDataSource\<close>\<close>

definition new_KafkaDataSource :: "config_dict \<Rightarrow> KafkaDataSource" where
  "new_KafkaDataSource cfg =
     \<lparr>k_config = cfg, k_is_connected = False, k_consumer = new_consumer cfg\<rparr>"

definition KafkaDataSource_connect :: "KafkaDataSource \<Rightarrow> world \<Rightarrow> bool \<times> KafkaDataSource" where
  "KafkaDataSource_connect ds w =
     (case consumer_connect (k_consumer ds) w of
        Inr (result, c) \<Rightarrow> (result, ds\<lparr>k_consumer := c, k_is_connected := result\<rparr>)
      | Inl e \<Rightarrow> (False, ds))"

definition KafkaDataSource_consume_batch ::
  "(json \<Rightarrow> json option) \<Rightarrow> int \<Rightarrow> int \<Rightarrow> KafkaDataSource \<Rightarrow> world
     \<Rightarrow> exn \<times> KafkaDataSource \<times> world + json list \<times> KafkaDataSource \<times> world" where
  "KafkaDataSource_consume_batch validate bs timeout_ms ds w =
     (case consumer_consume_batch validate bs timeout_ms (k_consumer ds) w of
        Inl (e, c, w1) \<Rightarrow> Inl (e, ds\<lparr>k_consumer := c\<rparr>, w1)
      | Inr (ms, c, w1) \<Rightarrow> Inr (ms, ds\<lparr>k_consumer := c\<rparr>, w1))"

definition KafkaDataSource_close :: "KafkaDataSource \<Rightarrow> world \<Rightarrow> exn + KafkaDataSource" where
  "KafkaDataSource_close ds w =
     (case consumer_close (k_consumer ds) w of
        Inr c \<Rightarrow> Inr (ds\<lparr>k_consumer := c, k_is_connected := False\<rparr>)
      | Inl e \<Rightarrow> Inr ds)"

definition KafkaDataSource_get_status :: "KafkaDataSource \<Rightarrow> source_status" where
  "KafkaDataSource_get_status ds =
     KafkaStatus (k_is_connected ds) ''kafka'' (d_bootstrap_servers (k_config ds))
       (get (d_topic (k_config ds)) []) (get (d_group_id (k_config ds)) [])"

subsection \<open>\<^verbatim>\<open>FileWatcherDataSource\<close>\<close>

definition new_FileWatcherDataSource :: "config_dict \<Rightarrow> FileWatcherDataSource" where
  "new_FileWatcherDataSource cfg =
     (let file_config =
            \<lparr>input_dir = get (d_input_dir cfg) ''input'',
             archive_dir = get (d_archive_dir cfg) ''archive'',
             error_dir = get (d_error_dir cfg) ''error'',
             file_pattern = get (d_file_pattern cfg) ''*.json'',
             process_existing = get (d_process_existing cfg) True,
             batch_size = get (d_batch_size cfg) 50,
             polling_interval = get (d_polling_interval cfg) 5\<rparr>
      in \<lparr>f_config = cfg, f_is_connected = False, f_watcher = new_watcher file_config\<rparr>)"

definition FileWatcherDataSource_connect ::
  "FileWatcherDataSource \<Rightarrow> world \<Rightarrow> bool \<times> FileWatcherDataSource \<times> world" where
  "FileWatcherDataSource_connect ds w =
     (case watcher_connect (f_watcher ds, w) of
        (result, fw, w1) \<Rightarrow> (result, ds\<lparr>f_watcher := fw, f_is_connected := result\<rparr>, w1))"

definition FileWatcherDataSource_consume_batch ::
  "int \<Rightarrow> int \<Rightarrow> FileWatcherDataSource \<Rightarrow> world
     \<Rightarrow> (exn \<times> FileWatcherDataSource \<times> world + json list \<times> FileWatcherDataSource \<times> world) option" where
  "FileWatcherDataSource_consume_batch bs timeout_ms ds w =
     (case watcher_consume_batch bs timeout_ms (f_watcher ds, w) of
        None \<Rightarrow> None
      | Some (Inl (e, fw, w1)) \<Rightarrow> Some (Inl (e, ds\<lparr>f_watcher := fw\<rparr>, w1))
      | Some (Inr (ms, fw, w1)) \<Rightarrow> Some (Inr (ms, ds\<lparr>f_watcher := fw\<rparr>, w1)))"

definition FileWatcherDataSource_close ::
  "FileWatcherDataSource \<Rightarrow> world \<Rightarrow> exn + FileWatcherDataSource" where
  "FileWatcherDataSource_close ds w =
     (case watcher_close (f_watcher ds) w of
        Inr fw \<Rightarrow> Inr (ds\<lparr>f_watcher := fw, f_is_connected := False\<rparr>)
      | Inl e \<Rightarrow> Inr ds)"

text \<open>
  \<^verbatim>\<open>get_status\<close> updates the base status with the watcher's statistics, whose own
  \<^verbatim>\<open>'is_connected'\<close> replaces the entry of the base status.
\<close>

definition FileWatcherDataSource_get_status ::
  "FileWatcherDataSource \<Rightarrow> world \<Rightarrow> source_status" where
  "FileWatcherDataSource_get_status ds w =
     (let base_status = FileWatcherStatus (f_is_connected ds) ''FileWatcherDataSource'';
          st = get_statistics (f_watcher ds) w
      in FileWatcherStatus (stat_is_connected st) ''file_watcher'' st)"

subsection \<open>The methods of either source\<close>

fun source_connect :: "data_source \<Rightarrow> world \<Rightarrow> bool \<times> data_source \<times> world" where
  "source_connect (Kafka ds) w =
     (case KafkaDataSource_connect ds w of (result, ds1) \<Rightarrow> (result, Kafka ds1, w))"
| "source_connect (FileWatcher ds) w =
     (case FileWatcherDataSource_connect ds w of
        (result, ds1, w1) \<Rightarrow> (result, FileWatcher ds1, w1))"

fun source_close :: "data_source \<Rightarrow> world \<Rightarrow> exn + data_source" where
  "source_close (Kafka ds) w = map_sum id Kafka (KafkaDataSource_close ds w)"
| "source_close (FileWatcher ds) w = map_sum id FileWatcher (FileWatcherDataSource_close ds w)"

fun source_consume_batch ::
  "(json \<Rightarrow> json option) \<Rightarrow> int \<Rightarrow> int \<Rightarrow> data_source \<Rightarrow> world
     \<Rightarrow> (exn \<times> data_source \<times> world + json list \<times> data_source \<times> world) option" where
  "source_consume_batch validate bs timeout_ms (Kafka ds) w =
     (case KafkaDataSource_consume_batch validate bs timeout_ms ds w of
        Inl (e, ds1, w1) \<Rightarrow> Some (Inl (e, Kafka ds1, w1))
      | Inr (ms, ds1, w1) \<Rightarrow> Some (Inr (ms, Kafka ds1, w1)))"
| "source_consume_batch validate bs timeout_ms (FileWatcher ds) w =
     (case FileWatcherDataSource_consume_batch bs timeout_ms ds w of
        None \<Rightarrow> None
      | Some (Inl (e, ds1, w1)) \<Rightarrow> Some (Inl (e, FileWatcher ds1, w1))
      | Some (Inr (ms, ds1, w1)) \<Rightarrow> Some (Inr (ms, FileWatcher ds1, w1)))"

fun source_get_status :: "data_source \<Rightarrow> world \<Rightarrow> source_status" where
  "source_get_status (Kafka ds) w = KafkaDataSource_get_status ds"
| "source_get_status (FileWatcher ds) w = FileWatcherDataSource_get_status ds w"

subsection \<open>\<^verbatim>\<open>DataSourceFactory\<close>\<close>

text \<open>
  The argument \<^verbatim>\<open>source_type: Union[DataSourceType, str]\<close>. Both members of the
  enumeration are registered when the factory is made and none is ever removed, so the
  check \<^verbatim>\<open>source_type not in self._registered_sources\<close> never fails.
\<close>

datatype source_type_arg = Member DataSourceType | Str string

definition to_member :: "source_type_arg \<Rightarrow> exn + DataSourceType" where
  "to_member source_type =
     (case source_type of Str v \<Rightarrow> DataSourceType_of (lower v) | Member t \<Rightarrow> Inr t)"

definition get_default_config :: "DataSourceType \<Rightarrow> config_dict" where
  "get_default_config source_type =
     (case source_type of
        KAFKA \<Rightarrow> KAFKA_CONFIG
      | FILE_WATCHER \<Rightarrow>
          empty_dict\<lparr>d_input_dir := Some ''input'', d_archive_dir := Some ''archive'',
                     d_error_dir := Some ''error'', d_file_pattern := Some ''*.json'',
                     d_process_existing := Some True, d_batch_size := Some 50,
                     d_polling_interval := Some 5\<rparr>)"

definition create_data_source :: "source_type_arg \<Rightarrow> config_dict option \<Rightarrow> exn + data_source" where
  "create_data_source source_type conf =
     (case to_member source_type of
        Inl e \<Rightarrow> Inl e
      | Inr t \<Rightarrow>
          (let cfg = (case conf of None \<Rightarrow> get_default_config t | Some c \<Rightarrow> c)
           in case t of
                KAFKA \<Rightarrow> Inr (Kafka (new_KafkaDataSource cfg))
              | FILE_WATCHER \<Rightarrow> Inr (FileWatcher (new_FileWatcherDataSource cfg))))"

definition get_available_sources :: "string list" where
  "get_available_sources = [type_value KAFKA, type_value FILE_WATCHER]"

subsection \<open>\<^verbatim>\<open>DataSourceManager\<close>\<close>

record DataSourceManager =
  current_source :: "data_source option"
  current_type :: "DataSourceType option"

definition new_DataSourceManager :: DataSourceManager where
  "new_DataSourceManager = \<lparr>current_source = None, current_type = None\<rparr>"

text \<open>
  \<^verbatim>\<open>initialize_source\<close>. Every exception of the body ends in the handler, which logs
  and returns \<^verbatim>\<open>False\<close>; the manager is then as the body left it. \<^verbatim>\<open>close\<close> works on
  the source the manager refers to, which therefore stays its current source, closed.
\<close>

definition initialize_source ::
  "source_type_arg \<Rightarrow> config_dict option \<Rightarrow> bool \<Rightarrow> DataSourceManager \<Rightarrow> world
     \<Rightarrow> bool \<times> DataSourceManager \<times> world" where
  "initialize_source source_type conf auto_connect m w =
     (case (case current_source m of
              None \<Rightarrow> Inr m
            | Some src \<Rightarrow> map_sum id (\<lambda>src1. m\<lparr>current_source := Some src1\<rparr>) (source_close src w)) of
        Inl e \<Rightarrow> (False, m, w)
      | Inr m1 \<Rightarrow>
          (case create_data_source source_type conf of
             Inl e \<Rightarrow> (False, m1, w)
           | Inr src \<Rightarrow>
               (let m2 = m1\<lparr>current_source := Some src\<rparr>
                in case to_member source_type of
                     Inl e \<Rightarrow> (False, m2, w)
                   | Inr t \<Rightarrow>
                       (let m3 = m2\<lparr>current_type := Some t\<rparr>
                        in if auto_connect then
                             (case source_connect src w of
                                (success, src1, w1) \<Rightarrow>
                                  (let m4 = m3\<lparr>current_source := Some src1\<rparr>
                                   in if \<not> success then (False, m4, w1) else (True, m4, w1)))
                           else (True, m3, w)))))"

definition switch_source ::
  "source_type_arg \<Rightarrow> config_dict option \<Rightarrow> DataSourceManager \<Rightarrow> world
     \<Rightarrow> bool \<times> DataSourceManager \<times> world" where
  "switch_source new_source_type conf m w = initialize_source new_source_type conf True m w"

definition get_current_source :: "DataSourceManager \<Rightarrow> data_source option" where
  "get_current_source m = current_source m"

datatype manager_status =
    NoSourceInitialized
  | ManagerStatus "string option" source_status "string list"

definition get_status :: "DataSourceManager \<Rightarrow> world \<Rightarrow> manager_status" where
  "get_status m w =
     (case current_source m of
        None \<Rightarrow> NoSourceInitialized
      | Some src \<Rightarrow>
          ManagerStatus (map_option type_value (current_type m)) (source_get_status src w)
            get_available_sources)"

definition manager_consume_batch ::
  "(json \<Rightarrow> json option) \<Rightarrow> int \<Rightarrow> int \<Rightarrow> DataSourceManager \<Rightarrow> world
     \<Rightarrow> (exn \<times> DataSourceManager \<times> world + json list \<times> DataSourceManager \<times> world) option" where
  "manager_consume_batch validate bs timeout_ms m w =
     (case current_source m of
        None \<Rightarrow> Some (Inl (RuntimeError ''No data source initialized'', m, w))
      | Some src \<Rightarrow>
          (case source_consume_batch validate bs timeout_ms src w of
             None \<Rightarrow> None
           | Some (Inl (e, src1, w1)) \<Rightarrow> Some (Inl (e, m\<lparr>current_source := Some src1\<rparr>, w1))
           | Some (Inr (ms, src1, w1)) \<Rightarrow> Some (Inr (ms, m\<lparr>current_source := Some src1\<rparr>, w1))))"

definition manager_close :: "DataSourceManager \<Rightarrow> world \<Rightarrow> exn + DataSourceManager" where
  "manager_close m w =
     (case current_source m of
        None \<Rightarrow> Inr m
      | Some src \<Rightarrow>
          (case source_close src w of
             Inl e \<Rightarrow> Inl e
           | Inr src1 \<Rightarrow> Inr (m\<lparr>current_source := None, current_type := None\<rparr>)))"

section \<open>Example inputs\<close>

text \<open>
  The configuration the factory builds by default, a watcher that is connected and has a
  given queue, a world with given files in which nothing else happens, and a file whose
  content parses.
\<close>

definition default_config :: FileWatcherConfig where
  "default_config =
     \<lparr>input_dir = ''input'', archive_dir = ''archive'', error_dir = ''error'',
      file_pattern = ''*.json'', process_existing = True, batch_size = 50,
      polling_interval = 5\<rparr>"

definition connected_watcher :: "path list \<Rightarrow> watcher" where
  "connected_watcher q =
     \<lparr>config = default_config, file_queue = q, observer = Some True, is_connected = True\<rparr>"

definition world_of :: "(path \<times> fentry) list \<Rightarrow> world" where
  "world_of fs = \<lparr>files = fs, clock = 0, pending = [], faults = {}, incoming = []\<rparr>"

definition json_file :: "json \<Rightarrow> fentry" where
  "json_file d = \<lparr>data = Parsed d, st_size = 1, st_mtime = 0\<rparr>"

text \<open>A manager whose current source is a connected folder watcher on empty directories.\<close>

definition active_manager :: DataSourceManager where
  "active_manager =
     fst (snd (initialize_source (Member FILE_WATCHER) None True new_DataSourceManager
                 (world_of [])))"

lemmas manager_eval =
  active_manager_def initialize_source_def new_DataSourceManager_def create_data_source_def
  to_member_def get_default_config_def new_FileWatcherDataSource_def empty_dict_def get_def
  new_watcher_def FileWatcherDataSource_connect_def watcher_connect_def world_of_def
  scan_existing_files_def glob_def switch_source_def lower_def DataSourceType_of_def
  FileWatcherDataSource_close_def watcher_close_def observer_stop_def
  new_KafkaDataSource_def new_consumer_def KAFKA_CONFIG_def KafkaDataSource_connect_def
  consumer_connect_def

section \<open>The manager\<close>

lemma source_close_total: "\<exists>s'. source_close src w = Inr s'"
  by (cases src)
     (auto simp: KafkaDataSource_close_def FileWatcherDataSource_close_def watcher_close_def
           split: sum.splits)

text \<open>
  C7, as the source has it. With no current source, \<^verbatim>\<open>consume_batch\<close> raises
  \<^verbatim>\<open>RuntimeError("No data source initialized")\<close>; \<^verbatim>\<open>close\<close> does nothing and returns
  normally, leaving the manager as it is; \<^verbatim>\<open>get_status\<close> returns the marker
  \<^verbatim>\<open>{'status': 'no_source_initialized'}\<close>.
\<close>

theorem no_active_source:
  "current_source m = None \<Longrightarrow>
     manager_consume_batch validate bs timeout_ms m w =
       Some (Inl (RuntimeError ''No data source initialized'', m, w)) \<and>
     manager_close m w = Inr m \<and>
     get_status m w = NoSourceInitialized"
  by (simp add: manager_consume_batch_def manager_close_def get_status_def)

theorem no_active_source_witness:
  "current_source new_DataSourceManager = None \<and>
   manager_consume_batch Some 10 5000 new_DataSourceManager (world_of []) =
     Some (Inl (RuntimeError ''No data source initialized'', new_DataSourceManager,
                world_of [])) \<and>
   manager_close new_DataSourceManager (world_of []) = Inr new_DataSourceManager \<and>
   get_status new_DataSourceManager (world_of []) = NoSourceInitialized"
  using no_active_source [of new_DataSourceManager Some 10 5000 "world_of []"]
  by (simp add: new_DataSourceManager_def)

text \<open>
  C7 as stated fails for \<^verbatim>\<open>close\<close>: on a manager without a source it does not fail.
\<close>

theorem close_without_source_counterexample:
  "current_source new_DataSourceManager = None \<and>
   \<not> (\<exists>e. manager_close new_DataSourceManager (world_of []) = Inl e)"
  by (simp add: manager_close_def new_DataSourceManager_def)

text \<open>The source as \<^verbatim>\<open>close\<close> leaves it.\<close>

definition source_after_close :: "data_source \<Rightarrow> world \<Rightarrow> data_source" where
  "source_after_close src w = (case source_close src w of Inr src1 \<Rightarrow> src1 | Inl e \<Rightarrow> src)"

text \<open>
  C2, as the source has it. A failed \<^verbatim>\<open>initialize_source\<close> does not reset the manager.
  When the construction of the new source raises, the manager keeps its previous source,
  now closed, and its previous type; it has no source only if it had none before. When
  the requested connect returns \<^verbatim>\<open>False\<close>, the new source, not connected, is the
  manager's current source, under the new type.
\<close>

theorem failed_initialize_keeps_source:
  "(create_data_source source_type conf = Inl e \<longrightarrow>
      initialize_source source_type conf auto_connect m w =
        (False,
         m\<lparr>current_source :=
             map_option (\<lambda>src. source_after_close src w) (current_source m)\<rparr>,
         w)) \<and>
   (create_data_source source_type conf = Inr src \<and> to_member source_type = Inr t \<and>
    source_connect src w = (False, src1, w1) \<longrightarrow>
      initialize_source source_type conf True m w =
        (False, m\<lparr>current_source := Some src1, current_type := Some t\<rparr>, w1))"
proof (cases "current_source m")
  case None
  then show ?thesis
    by (auto simp: initialize_source_def)
next
  case (Some old)
  obtain old' where "source_close old w = Inr old'"
    using source_close_total by blast
  with Some show ?thesis
    by (auto simp: initialize_source_def source_after_close_def)
qed

theorem failed_initialize_keeps_source_witness:
  "create_data_source (Str ''bogus'') None =
     Inl (ValueError ''bogus is not a valid DataSourceType'') \<and>
   initialize_source (Str ''bogus'') None True active_manager (world_of []) =
     (False,
      active_manager\<lparr>current_source :=
         map_option (\<lambda>src. source_after_close src (world_of []))
           (current_source active_manager)\<rparr>,
      world_of []) \<and>
   create_data_source (Str ''KAFKA'') None = Inr (Kafka (new_KafkaDataSource KAFKA_CONFIG)) \<and>
   to_member (Str ''KAFKA'') = Inr KAFKA \<and>
   source_connect (Kafka (new_KafkaDataSource KAFKA_CONFIG))
       ((world_of [])\<lparr>faults := {KafkaConnect}\<rparr>) =
     (False, Kafka (new_KafkaDataSource KAFKA_CONFIG),
      (world_of [])\<lparr>faults := {KafkaConnect}\<rparr>) \<and>
   initialize_source (Str ''KAFKA'') None True active_manager
       ((world_of [])\<lparr>faults := {KafkaConnect}\<rparr>) =
     (False,
      active_manager\<lparr>current_source := Some (Kafka (new_KafkaDataSource KAFKA_CONFIG)),
                     current_type := Some KAFKA\<rparr>,
      (world_of [])\<lparr>faults := {KafkaConnect}\<rparr>)"
proof -
  have c1: "create_data_source (Str ''bogus'') None =
              Inl (ValueError ''bogus is not a valid DataSourceType'')"
    by (simp add: manager_eval)
  have c2: "create_data_source (Str ''KAFKA'') None =
              Inr (Kafka (new_KafkaDataSource KAFKA_CONFIG))"
    by (simp add: create_data_source_def to_member_def lower_def DataSourceType_of_def
          get_default_config_def)
  have c3: "to_member (Str ''KAFKA'') = Inr KAFKA"
    by (simp add: to_member_def lower_def DataSourceType_of_def)
  have c4: "source_connect (Kafka (new_KafkaDataSource KAFKA_CONFIG))
                ((world_of [])\<lparr>faults := {KafkaConnect}\<rparr>) =
              (False, Kafka (new_KafkaDataSource KAFKA_CONFIG),
               (world_of [])\<lparr>faults := {KafkaConnect}\<rparr>)"
    by (simp add: manager_eval)
  from failed_initialize_keeps_source
         [of "Str ''bogus''" None "ValueError ''bogus is not a valid DataSourceType''" True
             active_manager "world_of []"]
       failed_initialize_keeps_source
         [of "Str ''KAFKA''" None _ _ active_manager
             "(world_of [])\<lparr>faults := {KafkaConnect}\<rparr>"
             "Kafka (new_KafkaDataSource KAFKA_CONFIG)" KAFKA
             "Kafka (new_KafkaDataSource KAFKA_CONFIG)"
             "(world_of [])\<lparr>faults := {KafkaConnect}\<rparr>"]
       c1 c2 c3 c4
  show ?thesis by simp
qed

text \<open>
  C2 as stated fails. From a manager with a connected folder watcher, a switch to an
  unknown kind fails in the construction and leaves the old watcher, closed, as the
  current source; a switch to Kafka while the broker cannot be reached fails in the
  connect and leaves the new Kafka source, not connected, as the current source.
\<close>

theorem failed_switch_counterexample:
  "fst (switch_source (Str ''bogus'') None active_manager (world_of [])) = False \<and>
   current_source (fst (snd (switch_source (Str ''bogus'') None active_manager (world_of [])))) =
     map_option (\<lambda>src. source_after_close src (world_of [])) (current_source active_manager) \<and>
   current_source (fst (snd (switch_source (Str ''bogus'') None active_manager (world_of []))))
     \<noteq> None \<and>
   fst (switch_source (Member KAFKA) None active_manager
          ((world_of [])\<lparr>faults := {KafkaConnect}\<rparr>)) = False \<and>
   current_source (fst (snd (switch_source (Member KAFKA) None active_manager
          ((world_of [])\<lparr>faults := {KafkaConnect}\<rparr>)))) =
     Some (Kafka (new_KafkaDataSource KAFKA_CONFIG))"
  by (simp add: manager_eval source_after_close_def Let_def)

section \<open>Lists that the batch limit cuts\<close>

text \<open>
  C10 on the source. The queue holds one file, a list of three records, and the batch
  size is two. \<^verbatim>\<open>consume_batch\<close> returns the first two records and leaves its loop by
  \<^verbatim>\<open>break\<close> at the second: the generator stands at its \<^verbatim>\<open>yield\<close> and is dropped
  there, so the file is neither appended to \<^verbatim>\<open>processed_files\<close> nor archived. It is
  off the queue and still in the input directory. After \<^verbatim>\<open>close\<close>, the next
  \<^verbatim>\<open>consume_batch\<close> connects again, finds the file in its scan and returns all three
  records, the third among them.
\<close>

theorem cut_list_is_not_archived:
  "watcher_consume_batch 2 5000
       (connected_watcher [(''input'', ''b.json'')],
        world_of [((''input'', ''b.json''), json_file (JArr [JNum 1, JNum 2, JNum 3]))]) =
     Some (Inr ([JNum 1, JNum 2], connected_watcher [],
                world_of [((''input'', ''b.json''),
                           json_file (JArr [JNum 1, JNum 2, JNum 3]))])) \<and>
   watcher_close (connected_watcher [])
       (world_of [((''input'', ''b.json''), json_file (JArr [JNum 1, JNum 2, JNum 3]))]) =
     Inr ((connected_watcher [])\<lparr>observer := Some False, is_connected := False\<rparr>) \<and>
   map_option (map_sum id fst)
     (watcher_consume_batch 3 5000
        ((connected_watcher [])\<lparr>observer := Some False, is_connected := False\<rparr>,
         world_of [((''input'', ''b.json''), json_file (JArr [JNum 1, JNum 2, JNum 3]))])) =
     Some (Inr [JNum 1, JNum 2, JNum 3])"
  by (simp add: watcher_consume_batch_def watcher_consume_messages_def connected_watcher_def
        world_of_def json_file_def run.simps path_exists_def json_load_def as_list_def
        resume_def wait_for_files.simps watcher_close_def observer_stop_def
        watcher_connect_def default_config_def scan_existing_files_def glob_def
        is_file_ready_def stat_def time_sleep_def add_file_to_queue_def mtime_key_def Let_def)

section \<open>Closing twice\<close>

text \<open>A Kafka source that is connected, with the default configuration.\<close>

definition connected_kafka :: KafkaDataSource where
  "connected_kafka =
     \<lparr>k_config = KAFKA_CONFIG, k_is_connected = True,
      k_consumer = \<lparr>consumer_config = KAFKA_CONFIG,
                    client = Some \<lparr>consumer_timeout_ms = 10000, closed = False\<rparr>\<rparr>\<rparr>"

text \<open>
  C8, as the source has it. \<^verbatim>\<open>close\<close> called twice never raises, on the watcher, on
  the folder watcher source and on the Kafka source: a failure of the library's stop or
  close is caught and logged. Afterwards the status reports \<^verbatim>\<open>is_connected\<close> false,
  provided the library call did not fail in both calls (or there was nothing to stop):
  the flag is reset after the library call, inside the \<^verbatim>\<open>try\<close>.
\<close>

theorem close_twice:
  "(\<exists>fw1 fw2.
      watcher_close fw w1 = Inr fw1 \<and> watcher_close fw1 w2 = Inr fw2 \<and>
      (observer fw \<noteq> Some True \<or> ObserverStop \<notin> faults w1 \<or> ObserverStop \<notin> faults w2 \<longrightarrow>
         \<not> stat_is_connected (get_statistics fw2 w2))) \<and>
   (\<exists>fs1 fs2.
      FileWatcherDataSource_close fs w1 = Inr fs1 \<and> FileWatcherDataSource_close fs1 w2 = Inr fs2 \<and>
      (observer (f_watcher fs) \<noteq> Some True \<or> ObserverStop \<notin> faults w1 \<or>
       ObserverStop \<notin> faults w2 \<longrightarrow>
         \<not> status_is_connected (FileWatcherDataSource_get_status fs2 w2))) \<and>
   (\<exists>ks1 ks2.
      KafkaDataSource_close ks w1 = Inr ks1 \<and> KafkaDataSource_close ks1 w2 = Inr ks2 \<and>
      (client (k_consumer ks) = None \<or> KafkaClose \<notin> faults w1 \<or> KafkaClose \<notin> faults w2 \<longrightarrow>
         \<not> status_is_connected (KafkaDataSource_get_status ks2)))"
  by (auto simp: watcher_close_def observer_stop_def get_statistics_def
        FileWatcherDataSource_close_def FileWatcherDataSource_get_status_def
        KafkaDataSource_close_def KafkaDataSource_get_status_def consumer_close_def
      split: option.splits)

theorem close_twice_witness:
  "watcher_close (connected_watcher []) (world_of []) =
     Inr ((connected_watcher [])\<lparr>observer := Some False, is_connected := False\<rparr>) \<and>
   watcher_close ((connected_watcher [])\<lparr>observer := Some False, is_connected := False\<rparr>)
       (world_of []) =
     Inr ((connected_watcher [])\<lparr>observer := Some False, is_connected := False\<rparr>) \<and>
   \<not> stat_is_connected
       (get_statistics ((connected_watcher [])\<lparr>observer := Some False, is_connected := False\<rparr>)
          (world_of [])) \<and>
   (\<exists>ks1 ks2.
      KafkaDataSource_close connected_kafka (world_of []) = Inr ks1 \<and>
      KafkaDataSource_close ks1 (world_of []) = Inr ks2 \<and>
      \<not> status_is_connected (KafkaDataSource_get_status ks2))"
  using close_twice [of "connected_watcher []" "world_of []" "world_of []" _ connected_kafka]
  by (auto simp: watcher_close_def observer_stop_def connected_watcher_def world_of_def
        get_statistics_def)

text \<open>
  C8 as stated fails when the library call fails both times: the failure is swallowed,
  and the status still reports \<^verbatim>\<open>is_connected\<close> true.
\<close>

theorem close_twice_counterexample:
  "(\<exists>fw2. watcher_close (connected_watcher []) ((world_of [])\<lparr>faults := {ObserverStop}\<rparr>) =
            Inr (connected_watcher []) \<and>
          watcher_close (connected_watcher []) ((world_of [])\<lparr>faults := {ObserverStop}\<rparr>) = Inr fw2 \<and>
          stat_is_connected (get_statistics fw2 ((world_of [])\<lparr>faults := {ObserverStop}\<rparr>))) \<and>
   (\<exists>ks2. KafkaDataSource_close connected_kafka ((world_of [])\<lparr>faults := {KafkaClose}\<rparr>) =
            Inr connected_kafka \<and>
          KafkaDataSource_close connected_kafka ((world_of [])\<lparr>faults := {KafkaClose}\<rparr>) = Inr ks2 \<and>
          status_is_connected (KafkaDataSource_get_status ks2))"
  by (simp add: watcher_close_def observer_stop_def connected_watcher_def world_of_def
        get_statistics_def KafkaDataSource_close_def consumer_close_def connected_kafka_def
        KafkaDataSource_get_status_def)

section \<open>The size of a batch\<close>

lemma consume_messages_yield_pos:
  "watcher_consume_messages mx s = Yield m g s' \<Longrightarrow> 0 < mx"
  by (auto simp: watcher_consume_messages_def split: if_splits prod.splits dest: run_yield)

lemma collect_length:
  "collect bs msgs r = Inr (msgs', s') \<Longrightarrow>
     int (length msgs) < bs \<or> (\<forall>m g s. r \<noteq> Yield m g s) \<Longrightarrow>
     int (length msgs) \<le> bs \<Longrightarrow> int (length msgs') \<le> bs"
proof (induction bs msgs r rule: collect.induct)
  case (3 bs messages message g s)
  show ?case
  proof (cases "bs \<le> int (length (messages @ [message]))")
    case True
    with "3.prems" show ?thesis by (auto simp: Let_def)
  next
    case False
    with "3.prems" have "collect bs (messages @ [message]) (resume g s) = Inr (msgs', s')"
      by (simp add: Let_def)
    from "3.IH" [OF refl False this] False show ?thesis by simp
  qed
qed auto

lemma wait_for_files_length:
  "wait_for_files bs timeout_ms start_time msgs s = Some r \<Longrightarrow>
     r = Inr (msgs', s') \<Longrightarrow> int (length msgs) \<le> bs \<Longrightarrow> int (length msgs') \<le> bs"
proof (induction arbitrary: msgs' s' rule: wait_for_files.raw_induct [rotated 1, consumes 1])
  case (1 wait bs timeout_ms start_time msgs s r)
  show ?case
  proof (cases "int (length msgs) < bs \<and> int (clock (snd s)) - int start_time < timeout_ms")
    case False
    with "1.prems" "1.hyps" show ?thesis by auto
  next
    case go: True
    show ?thesis
    proof (cases "file_queue (fst s) = []")
      case True
      with go "1.hyps" "1.prems"(1) obtain s1 where "wait bs timeout_ms start_time msgs s1 = Some r"
        by (auto split: sum.splits)
      from "1.IH" [OF this "1.prems"] show ?thesis .
    next
      case False
      with go "1.hyps" "1.prems"(1) obtain msgs1 s1 where
        c: "collect bs msgs (watcher_consume_messages (bs - int (length msgs)) s) = Inr (msgs1, s1)"
        and w: "wait bs timeout_ms start_time msgs1 s1 = Some r"
        by (auto split: sum.splits)
      from collect_length [OF c] go have "int (length msgs1) \<le> bs" by simp
      from "1.IH" [OF w "1.prems"(1) this] show ?thesis .
    qed
  qed
qed

lemma watcher_consume_batch_length:
  assumes "watcher_consume_batch bs timeout_ms s = Some (Inr (msgs, s'))" and "0 \<le> bs"
  shows "int (length msgs) \<le> bs"
proof -
  from assms(1) obtain msgs1 s1 where
    c: "collect bs [] (watcher_consume_messages bs s) = Inr (msgs1, s1)"
    and w: "wait_for_files bs timeout_ms (clock (snd s)) msgs1 s1 = Some (Inr (msgs, s'))"
    by (auto simp: watcher_consume_batch_def Let_def split: sum.splits)
  have "int (length ([] :: json list)) < bs \<or>
        (\<forall>m g s0. watcher_consume_messages bs s \<noteq> Yield m g s0)"
    using consume_messages_yield_pos [of bs s] by fastforce
  from collect_length [OF c this] assms(2) have "int (length msgs1) \<le> bs" by simp
  from wait_for_files_length [OF w refl this] show ?thesis .
qed

lemma consumer_loop_length:
  "consumer_loop validate cl mx mc acc w = Inr (msgs, w') \<Longrightarrow>
     int (length acc) \<le> mc \<Longrightarrow> mc \<le> mx \<Longrightarrow> int (length msgs) \<le> mx"
proof (induction validate cl mx mc acc w rule: consumer_loop.induct)
  case (1 validate cl mx mc acc w)
  note unf = "1.prems"(1) [unfolded consumer_loop.simps [of validate cl mx mc acc w]]
  show ?case
  proof (cases "client_next cl w")
    case (Inl err)
    with unf show ?thesis by simp
  next
    case (Inr r)
    obtain v w1 where r: "r = (v, w1)" by (cases r)
    show ?thesis
    proof (cases v)
      case None
      with unf Inr r "1.prems" show ?thesis by auto
    next
      case (Some x)
      show ?thesis
      proof (cases "mx \<le> mc")
        case True
        with unf Inr r Some "1.prems" show ?thesis by auto
      next
        case False
        show ?thesis
        proof (cases "validate x")
          case None
          with unf Inr r Some False
          have "consumer_loop validate cl mx mc acc w1 = Inr (msgs, w')" by simp
          from "1.IH"(1) [OF Inr r [symmetric] Some False None this] "1.prems" show ?thesis by simp
        next
          case (Some y)
          with unf Inr r \<open>v = Some x\<close> False
          have "consumer_loop validate cl mx (mc + 1) (acc @ [y]) w1 = Inr (msgs, w')" by simp
          from "1.IH"(2) [OF Inr r [symmetric] \<open>v = Some x\<close> False Some this] "1.prems" False
          show ?thesis by simp
        qed
      qed
    qed
  qed
qed

lemma consumer_consume_batch_length:
  "consumer_consume_batch validate bs timeout_ms c w = Inr (msgs, c', w') \<Longrightarrow> 0 \<le> bs \<Longrightarrow>
     int (length msgs) \<le> bs"
  by (auto simp: consumer_consume_batch_def consumer_consume_messages_def
           split: option.splits sum.splits if_splits prod.splits
           dest!: consumer_loop_length)

text \<open>
  C3. Whenever \<^verbatim>\<open>consume_batch\<close> of a source, the Kafka source or the folder watcher
  source, returns a batch for a requested size \<open>bs \<ge> 0\<close>, the batch has at most
  \<open>bs\<close> records.
\<close>

theorem batch_never_exceeds_size:
  "source_consume_batch validate bs timeout_ms src w = Some (Inr (msgs, src', w')) \<Longrightarrow>
     0 \<le> bs \<Longrightarrow> int (length msgs) \<le> bs"
proof (cases src)
  case (Kafka ds)
  assume "source_consume_batch validate bs timeout_ms src w = Some (Inr (msgs, src', w'))" "0 \<le> bs"
  with Kafka show ?thesis
    by (auto simp: KafkaDataSource_consume_batch_def split: sum.splits
             dest: consumer_consume_batch_length)
next
  case (FileWatcher ds)
  assume "source_consume_batch validate bs timeout_ms src w = Some (Inr (msgs, src', w'))" "0 \<le> bs"
  with FileWatcher show ?thesis
    by (auto simp: FileWatcherDataSource_consume_batch_def split: sum.splits option.splits
             dest: watcher_consume_batch_length)
qed


text \<open>A topic with three messages at hand, and the two sources above on their inputs.\<close>

definition topic_of :: "json list \<Rightarrow> world" where
  "topic_of vs = (world_of [])\<lparr>incoming := map (\<lambda>v. (0, Payload v)) vs\<rparr>"

theorem batch_never_exceeds_size_witness:
  "source_consume_batch Some 2 5000 (Kafka connected_kafka)
       (topic_of [JNum 1, JNum 2, JNum 3]) =
     Some (Inr ([JNum 1, JNum 2], Kafka connected_kafka, topic_of [])) \<and>
   (0 :: int) \<le> 2 \<and>
   int (length [JNum 1, JNum 2]) \<le> 2"
proof -
  have e: "source_consume_batch Some 2 5000 (Kafka connected_kafka)
             (topic_of [JNum 1, JNum 2, JNum 3]) =
           Some (Inr ([JNum 1, JNum 2], Kafka connected_kafka, topic_of []))"
    by (simp add: KafkaDataSource_consume_batch_def consumer_consume_batch_def
          consumer_consume_messages_def connected_kafka_def topic_of_def world_of_def
          consumer_loop.simps client_next_def)
  from batch_never_exceeds_size [OF e] e show ?thesis by simp
qed

section \<open>The empty batch and the timeout\<close>








section \<open>What a run of the generator does\<close>

text \<open>
  The files of a queue, handled one after the other as the loop of \<^verbatim>\<open>consume_messages\<close>
  handles them when no limit stops it: \<open>sweep\<close> gives the records in the order they are
  yielded, the files that end in \<^verbatim>\<open>processed_files\<close>, and the world after the failed
  files have been moved away.
\<close>

text \<open>The records of a value: the elements of a list, or the value itself.\<close>

definition records_of :: "json \<Rightarrow> json list" where
  "records_of d = (case as_list d of Some items \<Rightarrow> items | None \<Rightarrow> [d])"

definition file_records :: "world \<Rightarrow> path \<Rightarrow> json list" where
  "file_records w p = (case json_load w p of Inr d \<Rightarrow> records_of d | Inl e \<Rightarrow> [])"

fun sweep :: "watcher \<Rightarrow> path list \<Rightarrow> world \<Rightarrow> json list \<times> path list \<times> world" where
  "sweep fw [] w = ([], [], w)"
| "sweep fw (p # ps) w =
     (if \<not> path_exists w p then sweep fw ps w
      else
        (case json_load w p of
           Inl e \<Rightarrow> sweep fw ps (move_file_to_error p (except_message e) fw w)
         | Inr d \<Rightarrow>
             (case sweep fw ps w of (rs, pr, w') \<Rightarrow> (records_of d @ rs, p # pr, w'))))"


lemma archive_file_config:
  "config fw' = config fw \<Longrightarrow> archive_file p fw' w = archive_file p fw w"
  by (simp add: archive_file_def)

lemma archive_processed_config:
  "config fw' = config fw \<Longrightarrow> archive_processed ps fw' w = archive_processed ps fw w"
  by (simp add: archive_processed_def archive_file_config [of fw' fw])







subsection \<open>Files after a run\<close>

text \<open>
  The names a file gets in the archive and error directories, and the report written
  next to it.
\<close>

definition stamped :: "world \<Rightarrow> path \<Rightarrow> string" where
  "stamped w p = strftime (datetime_now w) @ ''_'' @ snd p"

definition archive_path :: "watcher \<Rightarrow> world \<Rightarrow> path \<Rightarrow> path" where
  "archive_path fw w p = (archive_dir (config fw), stamped w p)"

definition error_path :: "watcher \<Rightarrow> world \<Rightarrow> path \<Rightarrow> path" where
  "error_path fw w p = (error_dir (config fw), stamped w p)"

definition report_path :: "watcher \<Rightarrow> world \<Rightarrow> path \<Rightarrow> path" where
  "report_path fw w p = with_suffix (error_path fw w p) ''.error.txt''"

definition report_entry :: "world \<Rightarrow> path \<Rightarrow> string \<Rightarrow> fentry" where
  "report_entry w p msg =
     \<lparr>data = Malformed (error_report (snd p) (isoformat (datetime_now w)) msg)
               ''Expecting value: line 1 column 1 (char 0)'',
      st_size = length (error_report (snd p) (isoformat (datetime_now w)) msg),
      st_mtime = clock w\<rparr>"

lemma stamped_clock: "clock w' = clock w \<Longrightarrow> stamped w' p = stamped w p"
  by (simp add: stamped_def datetime_now_def)

lemma paths_clock:
  "clock w' = clock w \<Longrightarrow> archive_path fw w' p = archive_path fw w p"
  "clock w' = clock w \<Longrightarrow> error_path fw w' p = error_path fw w p"
  "clock w' = clock w \<Longrightarrow> report_path fw w' p = report_path fw w p"
  by (simp_all add: archive_path_def error_path_def report_path_def stamped_def
        datetime_now_def)

lemma fst_paths [simp]:
  "fst (archive_path fw w p) = archive_dir (config fw)"
  "fst (error_path fw w p) = error_dir (config fw)"
  "fst (report_path fw w p) = error_dir (config fw)"
  by (simp_all add: archive_path_def error_path_def report_path_def with_suffix_def Let_def)

lemma move_file_to_error_files:
  "map_of (files w) p = Some f \<Longrightarrow>
     move_file_to_error p msg fw w =
       w\<lparr>files := AList.update (report_path fw w p) (report_entry w p msg)
                   (AList.update (error_path fw w p) f (AList.delete p (files w)))\<rparr>"
  by (simp add: move_file_to_error_def shutil_move_def write_text_def Let_def
        error_path_def report_path_def stamped_def report_entry_def datetime_now_def)

lemma move_file_to_error_missing:
  "map_of (files w) p = None \<Longrightarrow> move_file_to_error p msg fw w = w"
  by (simp add: move_file_to_error_def shutil_move_def)

lemma move_file_to_error_map:
  "map_of (files (move_file_to_error p msg fw w)) =
     (case map_of (files w) p of
        None \<Rightarrow> map_of (files w)
      | Some f \<Rightarrow> (map_of (files w))
                    (p := None, error_path fw w p \<mapsto> f,
                     report_path fw w p \<mapsto> report_entry w p msg))"
proof (cases "map_of (files w) p")
  case None
  then show ?thesis by (simp add: move_file_to_error_missing)
next
  case (Some f)
  then show ?thesis
    by (simp add: move_file_to_error_files update_conv' delete_conv')
qed

lemma archive_file_map:
  "map_of (files (archive_file p fw w)) =
     (case map_of (files w) p of
        None \<Rightarrow> map_of (files w)
      | Some f \<Rightarrow> (map_of (files w))(p := None, archive_path fw w p \<mapsto> f))"
  by (auto simp: archive_file_def shutil_move_def unlink_def path_exists_def Let_def
        update_conv' delete_conv' archive_path_def stamped_def
      split: option.splits)

lemma move_file_to_error_rest [simp]:
  "clock (move_file_to_error p msg fw w) = clock w"
  "pending (move_file_to_error p msg fw w) = pending w"
  by (simp_all add: move_file_to_error_def shutil_move_def write_text_def Let_def
        split: option.splits)

lemma archive_file_rest [simp]:
  "clock (archive_file p fw w) = clock w"
  "pending (archive_file p fw w) = pending w"
  by (simp_all add: archive_file_def shutil_move_def unlink_def Let_def split: option.splits)

lemma archive_processed_rest [simp]:
  "clock (archive_processed ps fw w) = clock w"
  "pending (archive_processed ps fw w) = pending w"
  by (induction ps arbitrary: w) (simp_all add: archive_processed_def)


definition is_parsed :: "fentry \<Rightarrow> bool" where
  "is_parsed f = (case data f of Parsed d \<Rightarrow> True | _ \<Rightarrow> False)"

definition bad :: "world \<Rightarrow> path \<Rightarrow> bool" where
  "bad w p = (case map_of (files w) p of Some f \<Rightarrow> \<not> is_parsed f | None \<Rightarrow> False)"

definition parsed :: "world \<Rightarrow> path \<Rightarrow> bool" where
  "parsed w p = (case map_of (files w) p of Some f \<Rightarrow> is_parsed f | None \<Rightarrow> False)"

lemma json_load_cases:
  "json_load w p = Inl e \<Longrightarrow> path_exists w p \<Longrightarrow> bad w p"
  "json_load w p = Inr d \<Longrightarrow> parsed w p"
  "\<not> path_exists w p \<Longrightarrow> \<not> bad w p \<and> \<not> parsed w p"
  by (auto simp: json_load_def path_exists_def bad_def parsed_def is_parsed_def
           split: option.splits file_data.splits)

lemma same_entry:
  assumes "map_of (files w') x = map_of (files w) x"
  shows "json_load w' x = json_load w x" and "path_exists w' x = path_exists w x"
    and "file_records w' x = file_records w x" and "bad w' x = bad w x"
    and "parsed w' x = parsed w x"
  using assms by (simp_all add: json_load_def path_exists_def file_records_def bad_def parsed_def)

lemma move_lookup_other:
  "fst x \<noteq> error_dir (config fw) \<Longrightarrow>
     map_of (files (move_file_to_error p msg fw w)) x = (if x = p then None else map_of (files w) x)"
proof -
  assume a: "fst x \<noteq> error_dir (config fw)"
  have "x \<noteq> error_path fw w p" "x \<noteq> report_path fw w p"
    using a fst_paths(2,3) [of fw w p] by auto
  then show ?thesis
    by (cases "map_of (files w) p") (simp_all add: move_file_to_error_map)
qed


lemma sweep_input_lookup:
  "fst x \<noteq> error_dir (config fw) \<Longrightarrow>
     map_of (files (snd (snd (sweep fw q w)))) x =
       (if x \<in> set q \<and> bad w x then None else map_of (files w) x)"
proof (induction q arbitrary: w)
  case Nil
  then show ?case by simp
next
  case (Cons p ps)
  show ?case
  proof (cases "path_exists w p")
    case False
    with Cons.IH [OF Cons.prems, of w] json_load_cases(3) [OF False] show ?thesis
      by auto
  next
    case True
    show ?thesis
    proof (cases "json_load w p")
      case (Inl e)
      define w1 where "w1 = move_file_to_error p (except_message e) fw w"
      note l = move_lookup_other [OF Cons.prems, of p "except_message e" w, folded w1_def]
      have bp: "bad w p" using Inl True by (rule json_load_cases)
      show ?thesis
      proof (cases "x = p")
        case xp: True
        with l have "map_of (files w1) x = None" by simp
        then have "\<not> bad w1 x" by (simp add: bad_def)
        with Cons.IH [OF Cons.prems, of w1] True Inl xp bp \<open>map_of (files w1) x = None\<close>
        show ?thesis by (simp add: w1_def)
      next
        case False
        with l have "map_of (files w1) x = map_of (files w) x" by simp
        with Cons.IH [OF Cons.prems, of w1] True Inl False same_entry(4) [OF this]
        show ?thesis by (simp add: w1_def)
      qed
    next
      case (Inr d)
      have "\<not> bad w p" using json_load_cases(2) [OF Inr]
        by (auto simp: bad_def parsed_def split: option.splits)
      with True Inr Cons.IH [OF Cons.prems, of w] show ?thesis
        by (auto split: prod.splits)
    qed
  qed
qed


lemma sweep_cons_bad:
  "bad w p \<Longrightarrow>
     \<exists>e. json_load w p = Inl e \<and>
         sweep fw (p # ps) w = sweep fw ps (move_file_to_error p (except_message e) fw w)"
  by (auto simp: bad_def is_parsed_def json_load_def path_exists_def
           split: option.splits file_data.splits)

lemma sweep_cons_not_bad:
  "\<not> bad w p \<Longrightarrow> snd (snd (sweep fw (p # ps) w)) = snd (snd (sweep fw ps w))"
  by (auto simp: bad_def is_parsed_def json_load_def path_exists_def
           split: option.splits file_data.splits prod.splits)

lemma sweep_error_untouched:
  assumes "\<forall>p \<in> set q. fst p \<noteq> error_dir (config fw)"
    and "fst x = error_dir (config fw)"
    and "\<forall>p \<in> set q. bad w p \<longrightarrow> x \<noteq> error_path fw w p \<and> x \<noteq> report_path fw w p"
  shows "map_of (files (snd (snd (sweep fw q w)))) x = map_of (files w) x"
  using assms
proof (induction q arbitrary: w)
  case Nil
  then show ?case by simp
next
  case (Cons p ps)
  show ?case
  proof (cases "bad w p")
    case False
    with Cons.IH [of w] Cons.prems sweep_cons_not_bad [OF False, of fw ps] show ?thesis
      by simp
  next
    case True
    then obtain e where e: "json_load w p = Inl e"
      "sweep fw (p # ps) w = sweep fw ps (move_file_to_error p (except_message e) fw w)"
      using sweep_cons_bad by blast
    define w1 where "w1 = move_file_to_error p (except_message e) fw w"
    have x: "map_of (files w1) x = map_of (files w) x"
      using True Cons.prems
      by (cases "map_of (files w) p") (auto simp: w1_def move_file_to_error_map)
    have "bad w p'" if "p' \<in> set ps" "bad w1 p'" for p'
    proof -
      have "p' \<noteq> p"
        using that(2) Cons.prems(1) by (auto simp: w1_def bad_def move_lookup_other)
      with that Cons.prems(1) have "map_of (files w1) p' = map_of (files w) p'"
        by (simp add: w1_def move_lookup_other)
      from same_entry(4) [OF this] that(2) show ?thesis by simp
    qed
    moreover have c: "clock w1 = clock w" by (simp add: w1_def)
    ultimately have "\<forall>p' \<in> set ps. bad w1 p' \<longrightarrow>
        x \<noteq> error_path fw w1 p' \<and> x \<noteq> report_path fw w1 p'"
      using Cons.prems(3) by (simp add: paths_clock [OF c])
    with Cons.IH [of w1] Cons.prems have "map_of (files (snd (snd (sweep fw ps w1)))) x =
        map_of (files w1) x"
      by simp
    with x e show ?thesis by (simp add: w1_def)
  qed
qed

text \<open>
  No two files of the queue get the same name in the error directory, and no file's name
  there is the name of a report.
\<close>

definition separate :: "watcher \<Rightarrow> world \<Rightarrow> path list \<Rightarrow> bool" where
  "separate fw w q =
     (\<forall>a \<in> set q. \<forall>b \<in> set q.
        (a \<noteq> b \<longrightarrow> error_path fw w a \<noteq> error_path fw w b \<and>
                   archive_path fw w a \<noteq> archive_path fw w b) \<and>
        error_path fw w a \<noteq> report_path fw w b)"

lemma separate_clock: "clock w' = clock w \<Longrightarrow> separate fw w' q = separate fw w q"
  by (simp add: separate_def paths_clock [of w' w])

lemma separate_tail: "separate fw w (p # ps) \<Longrightarrow> separate fw w ps"
  by (simp add: separate_def)

lemma sweep_error_lookup:
  assumes "distinct q" and "\<forall>p \<in> set q. fst p \<noteq> error_dir (config fw)"
    and "separate fw w q" and "p \<in> set q" and "bad w p"
  shows "map_of (files (snd (snd (sweep fw q w)))) (error_path fw w p) = map_of (files w) p"
  using assms
proof (induction q arbitrary: w)
  case Nil
  then show ?case by simp
next
  case (Cons h ps)
  show ?case
  proof (cases "bad w h")
    case False
    with Cons.prems have "p \<in> set ps" by auto
    with Cons.IH [of w] Cons.prems separate_tail [OF Cons.prems(3)]
      sweep_cons_not_bad [OF False, of fw ps]
    show ?thesis by simp
  next
    case True
    then obtain e where e: "json_load w h = Inl e"
      "sweep fw (h # ps) w = sweep fw ps (move_file_to_error h (except_message e) fw w)"
      using sweep_cons_bad by blast
    define w1 where "w1 = move_file_to_error h (except_message e) fw w"
    have c: "clock w1 = clock w" by (simp add: w1_def)
    have sep1: "separate fw w1 ps"
      using separate_tail [OF Cons.prems(3)] by (simp add: separate_clock [OF c])
    show ?thesis
    proof (cases "p = h")
      case ph: True
      from True obtain f where f: "map_of (files w) h = Some f"
        by (auto simp: bad_def split: option.splits)
      have "error_path fw w h \<noteq> report_path fw w h"
        using Cons.prems(3) by (simp add: separate_def)
      with f have there: "map_of (files w1) (error_path fw w h) = Some f"
        by (simp add: w1_def move_file_to_error_map)
      have "\<forall>p' \<in> set ps. bad w1 p' \<longrightarrow>
              error_path fw w h \<noteq> error_path fw w1 p' \<and>
              error_path fw w h \<noteq> report_path fw w1 p'"
        using Cons.prems(1,3) by (auto simp: separate_def paths_clock [OF c])
      from sweep_error_untouched [OF _ _ this] Cons.prems(2)
      have "map_of (files (snd (snd (sweep fw ps w1)))) (error_path fw w h) =
              map_of (files w1) (error_path fw w h)"
        by simp
      with there f e ph show ?thesis by (simp add: w1_def)
    next
      case False
      with Cons.prems have in_ps: "p \<in> set ps" by auto
      from False in_ps Cons.prems(2) have "map_of (files w1) p = map_of (files w) p"
        by (simp add: w1_def move_lookup_other)
      with Cons.prems(5) same_entry(4) [OF this] have "bad w1 p" by simp
      with Cons.IH [of w1] Cons.prems(1,2) sep1 in_ps
      have "map_of (files (snd (snd (sweep fw ps w1)))) (error_path fw w1 p) =
              map_of (files w1) p"
        by simp
      moreover have "sweep fw (h # ps) w = sweep fw ps w1"
        using e(2) by (simp only: w1_def)
      ultimately show ?thesis
        using \<open>map_of (files w1) p = map_of (files w) p\<close>
        by (simp only: paths_clock [OF c])
    qed
  qed
qed

lemma sweep_processed:
  "\<forall>p \<in> set q. fst p \<noteq> error_dir (config fw) \<Longrightarrow>
     fst (snd (sweep fw q w)) = filter (parsed w) q"
proof (induction q arbitrary: w)
  case Nil
  then show ?case by simp
next
  case (Cons p ps)
  show ?case
  proof (cases "path_exists w p")
    case False
    with Cons json_load_cases(3) [OF False] show ?thesis by simp
  next
    case True
    show ?thesis
    proof (cases "json_load w p")
      case (Inl e)
      define w1 where "w1 = move_file_to_error p (except_message e) fw w"
      have np: "\<not> parsed w p"
        using json_load_cases(1) [OF Inl True]
        by (auto simp: bad_def parsed_def split: option.splits)
      have "parsed w1 x = parsed w x" if "x \<in> set ps" for x
      proof (cases "x = p")
        case True
        have "map_of (files w1) p = None"
          using Cons.prems by (simp add: w1_def move_lookup_other)
        then have "\<not> parsed w1 p" by (simp add: parsed_def)
        with True np show ?thesis by simp
      next
        case False
        with that Cons.prems have "map_of (files w1) x = map_of (files w) x"
          by (simp add: w1_def move_lookup_other)
        then show ?thesis by (rule same_entry)
      qed
      then have "filter (parsed w1) ps = filter (parsed w) ps"
        by (simp cong: filter_cong)
      moreover have "fst (snd (sweep fw (p # ps) w)) = fst (snd (sweep fw ps w1))"
        using True Inl by (simp add: w1_def)
      moreover have "fst (snd (sweep fw ps w1)) = filter (parsed w1) ps"
        using Cons.IH [of w1] Cons.prems by simp
      ultimately show ?thesis using np by simp
    next
      case (Inr d)
      with True Cons.IH [of w] Cons.prems json_load_cases(2) [OF Inr] show ?thesis
        by (cases "sweep fw ps w") simp
    qed
  qed
qed


lemma archive_processed_simps [simp]:
  "archive_processed [] fw w = w"
  "archive_processed (p # ps) fw w = archive_processed ps fw (archive_file p fw w)"
  by (simp_all add: archive_processed_def)

lemma archive_lookup_other:
  assumes "fst x \<noteq> archive_dir (config fw)"
  shows "map_of (files (archive_file p fw w)) x = (if x = p then None else map_of (files w) x)"
proof -
  have "x \<noteq> archive_path fw w p"
    using assms fst_paths(1) [of fw w p] by auto
  then show ?thesis
    by (cases "map_of (files w) p") (simp_all add: archive_file_map)
qed

lemma archive_processed_other:
  "fst x \<noteq> archive_dir (config fw) \<Longrightarrow>
     map_of (files (archive_processed pr fw w)) x =
       (if x \<in> set pr then None else map_of (files w) x)"
  by (induction pr arbitrary: w) (auto simp: archive_lookup_other)

lemma archive_processed_untouched:
  assumes "\<forall>p \<in> set pr. fst p \<noteq> archive_dir (config fw)"
    and "fst x = archive_dir (config fw)"
    and "\<forall>p \<in> set pr. x \<noteq> archive_path fw w p"
  shows "map_of (files (archive_processed pr fw w)) x = map_of (files w) x"
  using assms
proof (induction pr arbitrary: w)
  case Nil
  then show ?case by simp
next
  case (Cons p ps)
  define w1 where "w1 = archive_file p fw w"
  have c: "clock w1 = clock w" by (simp add: w1_def)
  have "map_of (files w1) x = map_of (files w) x"
    using Cons.prems by (cases "map_of (files w) p") (auto simp: w1_def archive_file_map)
  moreover have "map_of (files (archive_processed ps fw w1)) x = map_of (files w1) x"
    using Cons.IH [of w1] Cons.prems by (simp add: paths_clock [OF c])
  ultimately show ?case by (simp add: w1_def)
qed

lemma archive_processed_lookup:
  assumes "distinct pr" and "\<forall>p \<in> set pr. fst p \<noteq> archive_dir (config fw)"
    and "separate fw w pr" and "p \<in> set pr" and "map_of (files w) p = Some f"
  shows "map_of (files (archive_processed pr fw w)) (archive_path fw w p) = Some f"
  using assms
proof (induction pr arbitrary: w)
  case Nil
  then show ?case by simp
next
  case (Cons h ps)
  define w1 where "w1 = archive_file h fw w"
  have c: "clock w1 = clock w" by (simp add: w1_def)
  have sep1: "separate fw w1 ps"
    using separate_tail [OF Cons.prems(3)] by (simp add: separate_clock [OF c])
  have step: "archive_processed (h # ps) fw w = archive_processed ps fw w1"
    by (simp add: w1_def)
  show ?case
  proof (cases "p = h")
    case True
    with Cons.prems(5) have "map_of (files w1) (archive_path fw w h) = Some f"
      by (simp add: w1_def archive_file_map)
    moreover have "\<forall>p' \<in> set ps. archive_path fw w h \<noteq> archive_path fw w1 p'"
      using Cons.prems(1,3) by (auto simp: separate_def paths_clock [OF c])
    from archive_processed_untouched [OF _ _ this] Cons.prems(2)
    have "map_of (files (archive_processed ps fw w1)) (archive_path fw w h) =
            map_of (files w1) (archive_path fw w h)"
      by simp
    ultimately show ?thesis using True by (simp only: step)
  next
    case False
    with Cons.prems have in_ps: "p \<in> set ps" by auto
    with False Cons.prems(2,5) have "map_of (files w1) p = Some f"
      by (simp add: w1_def archive_lookup_other)
    with Cons.IH [of w1] Cons.prems(1,2) sep1 in_ps
    have "map_of (files (archive_processed ps fw w1)) (archive_path fw w1 p) = Some f"
      by simp
    then show ?thesis by (simp only: step paths_clock [OF c])
  qed
qed

lemma endswith_last: "endswith s suf \<Longrightarrow> suf \<noteq> [] \<Longrightarrow> last s = last suf"
proof -
  assume a: "endswith s suf" "suf \<noteq> []"
  then have "s = take (length s - length suf) s @ suf"
    by (simp add: endswith_def) (metis append_take_drop_id)
  then have "last s = last (take (length s - length suf) s @ suf)" by simp
  with a(2) show ?thesis by simp
qed

lemma json_names_separate:
  assumes "\<forall>p \<in> set q. fst p = d \<and> endswith (snd p) ''.json''"
  shows "separate fw w q"
proof -
  have "error_path fw w a \<noteq> report_path fw w b" if "a \<in> set q" for a b
  proof -
    from that assms have "endswith (snd a) ''.json''" by simp
    then have "last (snd a) = CHR ''n''"
      by (drule_tac endswith_last) simp_all
    moreover from \<open>endswith (snd a) ''.json''\<close> have "snd a \<noteq> []"
      by (auto simp: endswith_def)
    ultimately have "last (stamped w a) = CHR ''n''"
      by (simp add: stamped_def)
    moreover have "last (snd (report_path fw w b)) = CHR ''t''"
      by (simp add: report_path_def with_suffix_def Let_def)
    ultimately have "snd (error_path fw w a) \<noteq> snd (report_path fw w b)"
      by (auto simp: error_path_def)
    then show ?thesis by auto
  qed
  moreover have "error_path fw w a \<noteq> error_path fw w b \<and> archive_path fw w a \<noteq> archive_path fw w b"
    if "a \<in> set q" "b \<in> set q" "a \<noteq> b" for a b
  proof -
    from that assms have "snd a \<noteq> snd b" by (auto simp: prod_eq_iff)
    then show ?thesis
      by (simp add: error_path_def archive_path_def stamped_def)
  qed
  ultimately show ?thesis
    by (simp add: separate_def)
qed

section \<open>The order of the records\<close>




text \<open>
  Files A, B and C, queued in that order, where B holds a list of two records.
\<close>

definition statement :: "string \<Rightarrow> json" where
  "statement sid = JObj [(''statement_id'', JStr sid)]"



end
